theory Spec2Isabelle
  imports Complex_Main
begin

section \<open>PC temperature monitor: sensor chain and streaming loop\<close>

text \<open>
  A shallow embedding of \<^verbatim>\<open>pc_temp_monitor.py\<close>. Conventions:
  \<^item> A Python float is modelled by a rational number (\<^typ>\<open>rat\<close>) that stands for the
    binary64 number nearest to it. Comparisons, \<^verbatim>\<open>max\<close>, sums and quotients are the
    exact ones. Where the program rounds or formats to one decimal, the model takes
    the binary64 number first and rounds its exact value, as Python does.
  \<^item> Text is a \<^typ>\<open>string\<close> of bytes in UTF-8: the degree sign is the two bytes
    \<open>0xC2 0xB0\<close>; digit, space and case tests are the ASCII ones.
  \<^item> Everything the program reads from the outside (files, subprocesses, \<^verbatim>\<open>psutil\<close>,
    the serial port) is a parameter of the model; an exception of the source is a
    value, and every \<^verbatim>\<open>try\<close>/\<^verbatim>\<open>except\<close> is a case distinction on it.
  \<^item> Text written with \<^verbatim>\<open>print\<close> is not recorded; an exception raised while
    building the printed text is.
\<close>

subsection \<open>Text primitives\<close>

definition is_digit :: "char \<Rightarrow> bool" where
  "is_digit c = (48 \<le> (of_char c :: nat) \<and> (of_char c :: nat) \<le> 57)"

definition digit_val :: "char \<Rightarrow> nat" where
  "digit_val c = (of_char c :: nat) - 48"

definition digit_char :: "nat \<Rightarrow> char" where
  "digit_char d = char_of (48 + d)"

text \<open>\<^verbatim>\<open>str.isspace\<close> on one ASCII character: TAB..CR, FS..US and the blank.\<close>

definition is_space :: "char \<Rightarrow> bool" where
  "is_space c = (let n = (of_char c :: nat) in (9 \<le> n \<and> n \<le> 13) \<or> (28 \<le> n \<and> n \<le> 32))"

text \<open>\<^verbatim>\<open>s.isdigit()\<close>: at least one character, and all of them digits.\<close>

definition isdigit :: "string \<Rightarrow> bool" where
  "isdigit s = (s \<noteq> [] \<and> list_all is_digit s)"

text \<open>\<^verbatim>\<open>s.strip()\<close>.\<close>

definition strip :: "string \<Rightarrow> string" where
  "strip s = rev (dropWhile is_space (rev (dropWhile is_space s)))"

text \<open>\<^verbatim>\<open>s.replace('.', '')\<close>.\<close>

definition remove_dots :: "string \<Rightarrow> string" where
  "remove_dots s = filter (\<lambda>c. c \<noteq> CHR ''.'') s"

definition lower_char :: "char \<Rightarrow> char" where
  "lower_char c = (let n = (of_char c :: nat) in if 65 \<le> n \<and> n \<le> 90 then char_of (n + 32) else c)"

text \<open>\<^verbatim>\<open>s.lower()\<close>.\<close>

definition lower :: "string \<Rightarrow> string" where
  "lower s = map lower_char s"

text \<open>\<^verbatim>\<open>s.startswith(p)\<close> and \<^verbatim>\<open>s.endswith(p)\<close>.\<close>

definition startswith :: "string \<Rightarrow> string \<Rightarrow> bool" where
  "startswith s p = (take (length p) s = p)"

definition endswith :: "string \<Rightarrow> string \<Rightarrow> bool" where
  "endswith s p = (length p \<le> length s \<and> drop (length s - length p) s = p)"

text \<open>\<^verbatim>\<open>needle in hay\<close> for strings.\<close>

fun contains :: "string \<Rightarrow> string \<Rightarrow> bool" where
  "contains needle [] = (needle = [])"
| "contains needle (c # cs) = (startswith (c # cs) needle \<or> contains needle cs)"

text \<open>\<^verbatim>\<open>s.split(sep)\<close> for a one-character separator: the pieces between the separators,
  empty pieces kept.\<close>

fun split_on :: "char \<Rightarrow> string \<Rightarrow> string list" where
  "split_on sep [] = [[]]"
| "split_on sep (c # cs) =
     (if c = sep then [] # split_on sep cs
      else (case split_on sep cs of
              [] \<Rightarrow> [[c]]
            | w # ws \<Rightarrow> (c # w) # ws))"

text \<open>\<^verbatim>\<open>s.split()\<close>: the maximal runs of non-space characters.\<close>

fun split_ws_acc :: "string \<Rightarrow> string \<Rightarrow> string list" where
  "split_ws_acc cur [] = (if cur = [] then [] else [rev cur])"
| "split_ws_acc cur (c # cs) =
     (if is_space c then (if cur = [] then split_ws_acc [] cs else rev cur # split_ws_acc [] cs)
      else split_ws_acc (c # cur) cs)"

definition split_ws :: "string \<Rightarrow> string list" where
  "split_ws s = split_ws_acc [] s"

text \<open>\<^verbatim>\<open>f.readlines()\<close>: the lines of the text, each keeping its line feed.\<close>

fun readlines_acc :: "string \<Rightarrow> string \<Rightarrow> string list" where
  "readlines_acc cur [] = (if cur = [] then [] else [rev cur])"
| "readlines_acc cur (c # cs) =
     (if c = CHR 0x0A then rev (c # cur) # readlines_acc [] cs
      else readlines_acc (c # cur) cs)"

definition readlines :: "string \<Rightarrow> string list" where
  "readlines s = readlines_acc [] s"

subsection \<open>Numbers and their text\<close>

text \<open>The value of a string of decimal digits.\<close>

definition nat_of_digits :: "string \<Rightarrow> nat" where
  "nat_of_digits s = foldl (\<lambda>acc c. 10 * acc + digit_val c) 0 s"

text \<open>\<^verbatim>\<open>str(n)\<close> for a natural number and for an integer.\<close>

function str_nat :: "nat \<Rightarrow> string" where
  "str_nat n = (if n < 10 then [digit_char n] else str_nat (n div 10) @ [digit_char (n mod 10)])"
  by pat_completeness auto
termination
  by (relation "measure id") auto

declare str_nat.simps [simp del]


text \<open>
  \<^verbatim>\<open>float(s)\<close> on the strings that reach it in this program: an optional sign, then
  digits with at most one dot and at least one digit. Every other string is a
  \<^verbatim>\<open>ValueError\<close> here (\<open>None\<close>); the program never passes exponents, \<^verbatim>\<open>inf\<close> or
  \<^verbatim>\<open>nan\<close>, because of the digit test and the regular expression before the calls.
\<close>

definition float_unsigned :: "string \<Rightarrow> rat option" where
  "float_unsigned s =
     (let ip = takeWhile is_digit s; rest = dropWhile is_digit s in
      case rest of
        [] \<Rightarrow> if ip = [] then None else Some (of_nat (nat_of_digits ip))
      | c # fp \<Rightarrow>
          if c = CHR ''.'' \<and> list_all is_digit fp \<and> (ip \<noteq> [] \<or> fp \<noteq> [])
          then Some (of_nat (nat_of_digits ip) + of_nat (nat_of_digits fp) / 10 ^ length fp)
          else None)"

definition py_float :: "string \<Rightarrow> rat option" where
  "py_float s =
     (case s of
        [] \<Rightarrow> None
      | c # cs \<Rightarrow>
          if c = CHR ''-'' then map_option uminus (float_unsigned cs)
          else if c = CHR ''+'' then float_unsigned cs
          else float_unsigned s)"

text \<open>
  \<^verbatim>\<open>int(s)\<close> on a token without surrounding blanks: an optional sign, then groups of
  digits joined by single underscores.
\<close>

definition int_unsigned :: "string \<Rightarrow> int option" where
  "int_unsigned s =
     (let groups = split_on CHR ''_'' s in
      if list_all isdigit groups then Some (int (nat_of_digits (concat groups))) else None)"

definition py_int :: "string \<Rightarrow> int option" where
  "py_int s =
     (case s of
        [] \<Rightarrow> None
      | c # cs \<Rightarrow>
          if c = CHR ''-'' then map_option uminus (int_unsigned cs)
          else if c = CHR ''+'' then int_unsigned cs
          else int_unsigned s)"

text \<open>Rounding to the nearest integer, a tie going to the even neighbour.\<close>

definition round_half_even :: "rat \<Rightarrow> int" where
  "round_half_even y =
     (let f = \<lfloor>y\<rfloor>; d = y - of_int f in
      if d < 1 / 2 then f
      else if 1 / 2 < d then f + 1
      else if even f then f else f + 1)"

text \<open>The number of binary digits of a positive integer.\<close>

function bit_len :: "int \<Rightarrow> nat" where
  "bit_len n = (if n \<le> 0 then 0 else Suc (bit_len (n div 2)))"
  by pat_completeness auto
termination
  by (relation "measure nat") auto

declare bit_len.simps [simp del]

text \<open>The largest power of two that is at most \<open>y\<close>, for a positive \<open>y\<close>.\<close>

definition pow2 :: "rat \<Rightarrow> rat" where
  "pow2 y =
     (if 1 \<le> y then 2 ^ (bit_len \<lfloor>y\<rfloor> - 1)
      else 1 / 2 ^ bit_len (\<lceil>1 / y\<rceil> - 1))"

text \<open>
  The binary64 number nearest to \<open>x\<close>, a tie going to the even significand: \<open>x\<close> is
  rounded to a multiple of \<open>p / 2 ^ 52\<close>, where \<open>p\<close> is the largest power of two at
  most \<open>\<bar>x\<bar>\<close> (53 significant bits). The exponent is not bounded: overflow to
  infinity and subnormal numbers are not modelled.
\<close>

definition fl :: "rat \<Rightarrow> rat" where
  "fl x =
     (if x = 0 then 0
      else (let q = pow2 \<bar>x\<bar> / 2 ^ 52 in of_int (round_half_even (x / q)) * q))"

text \<open>
  \<^verbatim>\<open>round(x, 1)\<close>: the exact value of the binary64 number is rounded to the nearest
  tenth, a tie going to the even digit. So the decimal 45.15, whose binary64
  number lies below it, rounds to 45.1, and 0.25, which is a binary64 number,
  rounds to 0.2. The result is the tenth; it stands for the binary64 number
  nearest to it, which is what the program holds.
\<close>

definition py_round1 :: "rat \<Rightarrow> rat" where
  "py_round1 x = of_int (round_half_even (fl x * 10)) / 10"

text \<open>The format \<^verbatim>\<open>{x:.1f}\<close>: sign, integer digits, a dot, one decimal, again of the
  exact value of the binary64 number.\<close>

definition format_1f :: "rat \<Rightarrow> string" where
  "format_1f x =
     (let n = nat (round_half_even (fl \<bar>x\<bar> * 10)) in
      (if x < 0 then ''-'' else '''') @ str_nat (n div 10) @ ''.'' @ [digit_char (n mod 10)])"

subsection \<open>The outside world\<close>

text \<open>
  What opening and reading a file can do: the path does not exist, the operating
  system refuses (\<^verbatim>\<open>OSError\<close>), the bytes do not decode (\<^verbatim>\<open>UnicodeDecodeError\<close>, a
  \<^verbatim>\<open>ValueError\<close>), or the text is read.
\<close>

datatype file_state = Missing | IOFail | DecodeFail | Content string

text \<open>What \<^verbatim>\<open>subprocess.run\<close> can do: complete with a return code and its standard
  output, run into the timeout, or raise anything else.\<close>

datatype proc = Completed int string | TimeoutExpired | ProcFailed

text \<open>The exceptions that leave the innermost handlers of the hwmon probe.\<close>

datatype exn = NameError | ValueError

text \<open>One \<^verbatim>\<open>temp*_input\<close> leaf with its sibling label file, and one hwmon directory.\<close>

record temp_leaf =
  input_file :: file_state
  label_file :: file_state

record hwmon_dir =
  name_file :: file_state
  temp_leaves :: "temp_leaf list"

text \<open>
  Everything one sampling reads: the two \<^verbatim>\<open>psutil.cpu_percent\<close> results (\<open>None\<close>
  when the call raises), \<^verbatim>\<open>/proc/stat\<close>, the file system under the fixed paths, the
  hwmon directories in the order \<^verbatim>\<open>glob\<close> lists them, and the two subprocesses.
\<close>

record sensor_env =
  cpu_percent_first :: "rat option"
  cpu_percent_second :: "rat option"
  proc_stat :: file_state
  fs :: "string \<Rightarrow> file_state"
  hwmon_dirs :: "hwmon_dir list"
  which_sensors :: proc
  sensors_run :: proc

subsection \<open>Load: \<^verbatim>\<open>get_cpu_load_from_proc\<close> and \<^verbatim>\<open>get_cpu_load\<close>\<close>

text \<open>
  The loop over the lines of \<^verbatim>\<open>/proc/stat\<close>. \<open>None\<close> stands for every way of reaching
  the final \<^verbatim>\<open>return 5.0\<close>: no \<^verbatim>\<open>cpu\<close> line, a token that is no integer, fewer than
  five tokens, or a total that is not positive.
\<close>

fun proc_scan :: "string list \<Rightarrow> rat option" where
  "proc_scan [] = None"
| "proc_scan (line # rest) =
     (if startswith line ''cpu '' then
        (let parts = split_ws line in
         case those (map py_int (tl parts)) of
           None \<Rightarrow> None
         | Some nums \<Rightarrow>
             (let total_time = sum_list nums in
              if length parts \<le> 4 then None
              else (case py_int (parts ! 4) of
                      None \<Rightarrow> None
                    | Some idle_time \<Rightarrow>
                        if 0 < total_time
                        then Some (100 - (of_int idle_time / of_int total_time) * 100)
                        else None)))
      else proc_scan rest)"

definition get_cpu_load_from_proc :: "file_state \<Rightarrow> rat" where
  "get_cpu_load_from_proc f =
     (case f of
        Content text \<Rightarrow> (case proc_scan (readlines text) of Some v \<Rightarrow> v | None \<Rightarrow> 5)
      | _ \<Rightarrow> 5)"

definition get_cpu_load :: "sensor_env \<Rightarrow> rat" where
  "get_cpu_load env =
     (case cpu_percent_first env of
        None \<Rightarrow> 1
      | Some _ \<Rightarrow>
          (case cpu_percent_second env of
             None \<Rightarrow> 1
           | Some cpu_load \<Rightarrow>
               max (1 / 10)
                 (if cpu_load = 0 then get_cpu_load_from_proc (proc_stat env) else cpu_load)))"

subsection \<open>Probe 1: \<^verbatim>\<open>get_cpu_temp_from_amd_specific\<close>\<close>

definition amd_temp_paths :: "string list" where
  "amd_temp_paths =
     [''/sys/devices/pci0000:00/0000:00:18.3/hwmon/hwmon0/temp1_input'',
      ''/sys/devices/pci0000:00/0000:00:18.3/hwmon/hwmon1/temp1_input'',
      ''/sys/devices/pci0000:00/0000:00:18.3/hwmon/hwmon2/temp1_input'']"

text \<open>The body of the loop for one path; \<open>None\<close> is \<^verbatim>\<open>continue\<close> (or falling out of
  the \<^verbatim>\<open>if\<close>), \<open>Some\<close> is the \<^verbatim>\<open>return\<close>.\<close>

definition amd_read_path :: "file_state \<Rightarrow> rat option" where
  "amd_read_path f =
     (case f of
        Content text \<Rightarrow>
          (let temp_str = strip text in
           if temp_str = [] \<or> \<not> isdigit (remove_dots temp_str) then None
           else (case py_float temp_str of
                   None \<Rightarrow> None
                 | Some v \<Rightarrow>
                     (let temp = v / 1000 in
                      if 0 \<le> temp \<and> temp \<le> 120 then Some temp else None)))
      | _ \<Rightarrow> None)"

fun amd_loop :: "(string \<Rightarrow> file_state) \<Rightarrow> string list \<Rightarrow> rat option" where
  "amd_loop files [] = None"
| "amd_loop files (temp_path # paths) =
     (case amd_read_path (files temp_path) of
        Some temp \<Rightarrow> Some temp
      | None \<Rightarrow> amd_loop files paths)"

definition get_cpu_temp_from_amd_specific :: "(string \<Rightarrow> file_state) \<Rightarrow> rat option" where
  "get_cpu_temp_from_amd_specific files = amd_loop files amd_temp_paths"

subsection \<open>Probe 2: \<^verbatim>\<open>get_cpu_temp_from_sysfs\<close>\<close>

text \<open>
  The variable \<^verbatim>\<open>device_name\<close> is assigned only when a directory has a readable
  \<^verbatim>\<open>name\<close> file, and it keeps its value from one directory to the next; it is
  \<open>None\<close> while unassigned. Both \<^verbatim>\<open>print\<close> calls after an accepted reading
  mention it, so they raise \<^verbatim>\<open>NameError\<close> while it is unassigned. The handler around
  a leaf catches \<^verbatim>\<open>ValueError\<close> and \<^verbatim>\<open>OSError\<close>, the one around a directory
  \<^verbatim>\<open>OSError\<close>, the outermost one everything.
\<close>

fun sysfs_leaves :: "string option \<Rightarrow> temp_leaf list \<Rightarrow> rat list \<Rightarrow> exn + rat list" where
  "sysfs_leaves device_name [] temperatures = Inr temperatures"
| "sysfs_leaves device_name (leaf # leaves) temperatures =
     (case input_file leaf of
        Content text \<Rightarrow>
          (let temp_str = strip text in
           if temp_str = [] \<or> \<not> isdigit (remove_dots temp_str)
           then sysfs_leaves device_name leaves temperatures
           else (case py_float temp_str of
                   None \<Rightarrow> sysfs_leaves device_name leaves temperatures
                 | Some v \<Rightarrow>
                     (let temp = v / 1000 in
                      if 0 \<le> temp \<and> temp \<le> 120 then
                        (case label_file leaf of
                           IOFail \<Rightarrow> sysfs_leaves device_name leaves (temperatures @ [temp])
                         | DecodeFail \<Rightarrow> sysfs_leaves device_name leaves (temperatures @ [temp])
                         | _ \<Rightarrow>
                             (case device_name of
                                None \<Rightarrow> Inl NameError
                              | Some _ \<Rightarrow> sysfs_leaves device_name leaves (temperatures @ [temp])))
                      else sysfs_leaves device_name leaves temperatures)))
      | _ \<Rightarrow> sysfs_leaves device_name leaves temperatures)"

fun sysfs_dirs :: "string option \<Rightarrow> hwmon_dir list \<Rightarrow> rat list \<Rightarrow> exn + rat list" where
  "sysfs_dirs device_name [] temperatures = Inr temperatures"
| "sysfs_dirs device_name (hwmon # dirs) temperatures =
     (case name_file hwmon of
        IOFail \<Rightarrow> sysfs_dirs device_name dirs temperatures
      | DecodeFail \<Rightarrow> Inl ValueError
      | Missing \<Rightarrow>
          (case sysfs_leaves device_name (temp_leaves hwmon) temperatures of
             Inl e \<Rightarrow> Inl e
           | Inr temperatures' \<Rightarrow> sysfs_dirs device_name dirs temperatures')
      | Content text \<Rightarrow>
          (case sysfs_leaves (Some (strip text)) (temp_leaves hwmon) temperatures of
             Inl e \<Rightarrow> Inl e
           | Inr temperatures' \<Rightarrow> sysfs_dirs (Some (strip text)) dirs temperatures'))"

definition get_cpu_temp_from_sysfs :: "hwmon_dir list \<Rightarrow> rat option" where
  "get_cpu_temp_from_sysfs dirs =
     (if dirs = [] then None
      else (case sysfs_dirs None dirs [] of
              Inl e \<Rightarrow> None
            | Inr temperatures \<Rightarrow>
                (case temperatures of
                   [] \<Rightarrow> None
                 | t # ts \<Rightarrow> Some (foldl max t ts))))"

subsection \<open>Probe 3: \<^verbatim>\<open>get_cpu_temp_from_lm_sensors\<close>\<close>

definition degree_upper_C :: string where
  "degree_upper_C = [CHR 0xC2, CHR 0xB0, CHR ''C'']"

definition degree_lower_c :: string where
  "degree_lower_c = [CHR 0xC2, CHR 0xB0, CHR ''c'']"

text \<open>
  The regular expression \<^verbatim>\<open>([+-]?\d+\.?\d*)\s*\<close> followed by the degree sign and
  \<^verbatim>\<open>C\<close>, tried at the start of \<open>s\<close>; the result is group 1. Each greedy choice is
  the only one that can succeed: after a shorter run of digits or blanks the next
  character is again a digit or a blank, never the degree sign.
\<close>

definition match_here :: "string \<Rightarrow> string option" where
  "match_here s =
     (let (sgn, s1) = (case s of
                         [] \<Rightarrow> ([], s)
                       | c # cs \<Rightarrow> if c = CHR ''+'' \<or> c = CHR ''-'' then ([c], cs) else ([], s));
          d1 = takeWhile is_digit s1;
          s2 = dropWhile is_digit s1;
          (dot, s3) = (case s2 of
                         [] \<Rightarrow> ([], s2)
                       | c # cs \<Rightarrow> if c = CHR ''.'' then ([c], cs) else ([], s2));
          d2 = takeWhile is_digit s3;
          s4 = dropWhile is_digit s3;
          s5 = dropWhile is_space s4
      in if d1 \<noteq> [] \<and> startswith s5 degree_upper_C then Some (sgn @ d1 @ dot @ d2) else None)"

text \<open>\<^verbatim>\<open>re.search\<close>: the match at the leftmost position that has one.\<close>

fun re_search :: "string \<Rightarrow> string option" where
  "re_search [] = None"
| "re_search (c # cs) =
     (case match_here (c # cs) of
        Some g \<Rightarrow> Some g
      | None \<Rightarrow> re_search cs)"

text \<open>The condition of the \<^verbatim>\<open>if\<close> on a line: the label words are looked up in the
  lowered line, the degree sign with a small \<^verbatim>\<open>c\<close> in the line as it is.\<close>

definition cpu_line :: "string \<Rightarrow> bool" where
  "cpu_line line =
     (let line_lower = lower line in
      (contains ''core'' line_lower \<or> contains ''cpu'' line_lower \<or>
       contains ''package'' line_lower \<or> contains ''tccd'' line_lower \<or>
       contains ''tdie'' line_lower) \<and> contains degree_lower_c line)"

text \<open>The loop over the lines; the result is the list \<^verbatim>\<open>temps\<close> in the order of the
  appends.\<close>

fun lm_collect :: "string list \<Rightarrow> rat list" where
  "lm_collect [] = []"
| "lm_collect (line # rest) =
     (if cpu_line line then
        (case re_search line of
           None \<Rightarrow> lm_collect rest
         | Some g \<Rightarrow>
             (case py_float g of
                None \<Rightarrow> lm_collect rest
              | Some temp \<Rightarrow>
                  if 0 \<le> temp \<and> temp \<le> 120 then temp # lm_collect rest
                  else lm_collect rest))
      else lm_collect rest)"

definition get_cpu_temp_from_lm_sensors :: "proc \<Rightarrow> proc \<Rightarrow> rat option" where
  "get_cpu_temp_from_lm_sensors which_result run_result =
     (case which_result of
        Completed rc_which out_which \<Rightarrow>
          if rc_which \<noteq> 0 then None
          else (case run_result of
                  Completed rc output \<Rightarrow>
                    if rc = 0 then
                      (let temps = lm_collect (split_on (CHR 0x0A) output) in
                       if temps \<noteq> [] then Some (sum_list temps / of_nat (length temps))
                       else None)
                    else None
                | _ \<Rightarrow> None)
      | _ \<Rightarrow> None)"

subsection \<open>The chain: \<^verbatim>\<open>get_cpu_temperature_linux\<close>\<close>

datatype level = DEBUG | INFO | WARNING | ERROR

text \<open>The log messages of the program, by what they say.\<close>

datatype message =
    NoTemperatureUsingSafeValue
  | SendDataError
  | NoConnection
  | MonitoringStarted
  | ReadingLine rat rat
  | DeviceResponse string
  | SendFailed int int
  | TooManyErrors
  | StoppedByUser
  | TickError
  | MonitoringStopped

type_synonym log_event = "level \<times> message"

text \<open>The result is the returned pair (temperature, load) and the events given to
  the logger.\<close>

definition get_cpu_temperature_linux :: "sensor_env \<Rightarrow> (rat \<times> rat) \<times> log_event list" where
  "get_cpu_temperature_linux env =
     (let cpu_load = get_cpu_load env;
          temp1 = get_cpu_temp_from_amd_specific (fs env);
          temp2 = (if temp1 = None then get_cpu_temp_from_sysfs (hwmon_dirs env) else temp1);
          temp3 = (if temp2 = None
                   then get_cpu_temp_from_lm_sensors (which_sensors env) (sensors_run env)
                   else temp2)
      in case temp3 of
           None \<Rightarrow> ((py_round1 40, py_round1 cpu_load), [(WARNING, NoTemperatureUsingSafeValue)])
         | Some temp \<Rightarrow> ((py_round1 temp, py_round1 cpu_load), []))"

subsection \<open>The class \<^verbatim>\<open>TemperatureMonitor\<close>\<close>

text \<open>
  The serial connection as the program sees it: the flag \<^verbatim>\<open>is_open\<close>, the calls of
  \<^verbatim>\<open>write\<close> so far (the bytes, and whether the call completed), and the number of
  calls of \<^verbatim>\<open>close\<close>.
\<close>

record serial =
  is_open :: bool
  tx :: "(string \<times> bool) list"
  close_calls :: nat

text \<open>The fields of the object; \<open>logged\<close> is what the logger has been given.\<close>

record monitor =
  com_port :: string
  serial_conn :: "serial option"
  running :: bool
  error_count :: int
  max_errors :: int
  daemon_mode :: bool
  logged :: "log_event list"

text \<open>\<^verbatim>\<open>__init__\<close>.\<close>

definition init_monitor :: "string \<Rightarrow> bool \<Rightarrow> monitor" where
  "init_monitor port daemon =
     \<lparr>com_port = port, serial_conn = None, running = False, error_count = 0,
      max_errors = 10, daemon_mode = daemon, logged = []\<rparr>"

text \<open>The test \<^verbatim>\<open>self.serial_conn and self.serial_conn.is_open\<close>.\<close>

definition connected :: "monitor \<Rightarrow> bool" where
  "connected m = (case serial_conn m of None \<Rightarrow> False | Some conn \<Rightarrow> is_open conn)"

definition log_to :: "monitor \<Rightarrow> level \<Rightarrow> message \<Rightarrow> monitor" where
  "log_to m lv msg = m\<lparr>logged := logged m @ [(lv, msg)]\<rparr>"

text \<open>
  \<^verbatim>\<open>send_data\<close>. The parameter \<open>write_ok\<close> says whether \<^verbatim>\<open>write\<close> completes or raises;
  when it raises, the handler logs the error and the function returns \<^verbatim>\<open>False\<close>.
\<close>

definition send_data :: "monitor \<Rightarrow> string \<Rightarrow> bool \<Rightarrow> bool \<times> monitor" where
  "send_data m data_str write_ok =
     (case serial_conn m of
        None \<Rightarrow> (False, m)
      | Some conn \<Rightarrow>
          if is_open conn then
            (let line = (if endswith data_str ''\<newline>'' then data_str else data_str @ ''\<newline>'') in
             if write_ok
             then (True, m\<lparr>serial_conn := Some (conn\<lparr>tx := tx conn @ [(line, True)]\<rparr>)\<rparr>)
             else (False, log_to (m\<lparr>serial_conn := Some (conn\<lparr>tx := tx conn @ [(line, False)]\<rparr>)\<rparr>)
                            ERROR SendDataError))
          else (False, m))"

text \<open>
  \<^verbatim>\<open>read_response\<close>. The parameter \<open>incoming\<close> is the line waiting on the port, \<open>None\<close>
  when nothing is waiting or when reading or decoding raises.
\<close>

definition read_response :: "monitor \<Rightarrow> string option \<Rightarrow> string option" where
  "read_response m incoming =
     (case serial_conn m of
        None \<Rightarrow> None
      | Some conn \<Rightarrow>
          (case incoming of
             None \<Rightarrow> None
           | Some raw \<Rightarrow> if strip raw \<noteq> [] then Some (strip raw) else None))"

text \<open>\<^verbatim>\<open>stop\<close>.\<close>

definition stop :: "monitor \<Rightarrow> monitor" where
  "stop m =
     (let m1 = m\<lparr>running := False\<rparr>;
          m2 = (case serial_conn m1 of
                  None \<Rightarrow> m1
                | Some conn \<Rightarrow>
                    if is_open conn
                    then m1\<lparr>serial_conn :=
                              Some (conn\<lparr>is_open := False, close_calls := close_calls conn + 1\<rparr>)\<rparr>
                    else m1)
      in log_to m2 INFO MonitoringStopped)"

subsection \<open>The loop of \<^verbatim>\<open>run\<close>\<close>

text \<open>
  What happens in one iteration, from outside: the sampling returns, or a
  \<^verbatim>\<open>KeyboardInterrupt\<close> or some other exception is raised in it, or the signal
  handler installed by \<^verbatim>\<open>main\<close> runs (it calls \<^verbatim>\<open>stop\<close> and then \<^verbatim>\<open>sys.exit\<close>).
  These events are taken at the sampling, the first statement of the iteration.
\<close>

datatype tick_event = Sampled | Interrupted | Faulted | Signalled

record tick =
  event :: tick_event
  sensors :: sensor_env
  write_ok :: bool
  incoming :: "string option"

text \<open>How an iteration ends: with the next iteration, with \<^verbatim>\<open>break\<close>, or with
  \<^verbatim>\<open>SystemExit\<close> on its way out.\<close>

datatype flow = Continue | Break | Exit

text \<open>The body of the \<^verbatim>\<open>while\<close> loop; the number is the local \<^verbatim>\<open>success_counter\<close>.\<close>

definition tick_step :: "monitor \<Rightarrow> nat \<Rightarrow> tick \<Rightarrow> flow \<times> monitor \<times> nat" where
  "tick_step m success_counter t =
     (case event t of
        Interrupted \<Rightarrow> (Break, (log_to m INFO StoppedByUser)\<lparr>running := False\<rparr>, success_counter)
      | Signalled \<Rightarrow> (Exit, stop m, success_counter)
      | Faulted \<Rightarrow>
          (let m1 = (log_to m ERROR TickError)\<lparr>error_count := error_count m + 1\<rparr> in
           if max_errors m1 \<le> error_count m1
           then (Break, log_to m1 ERROR TooManyErrors, success_counter)
           else (Continue, m1, success_counter))
      | Sampled \<Rightarrow>
          (let ((cpu_temp, cpu_load), events) = get_cpu_temperature_linux (sensors t);
               m1 = m\<lparr>logged := logged m @ events\<rparr>;
               data_str = ''TEMP:'' @ format_1f cpu_temp @ ''|LOAD:'' @ format_1f cpu_load;
               (sent, m2) = send_data m1 data_str (write_ok t)
           in if sent then
                (let m3 = m2\<lparr>error_count := 0\<rparr>;
                     counter = success_counter + 1;
                     m4 = (if \<not> daemon_mode m3 \<or> counter mod 10 = 0
                           then log_to m3 INFO (ReadingLine cpu_temp cpu_load) else m3);
                     m5 = (case read_response m4 (incoming t) of
                             None \<Rightarrow> m4
                           | Some response \<Rightarrow>
                               if contains ''ERROR'' response \<or> contains ''no data'' response
                               then log_to m4 WARNING (DeviceResponse response)
                               else log_to m4 DEBUG (DeviceResponse response))
                 in (Continue, m5, counter))
              else
                (let m3 = log_to (m2\<lparr>error_count := error_count m2 + 1\<rparr>)
                            WARNING (SendFailed (error_count m2 + 1) (max_errors m2))
                 in if max_errors m3 \<le> error_count m3
                    then (Break, log_to m3 ERROR TooManyErrors, success_counter)
                    else (Continue, m3, success_counter))))"

text \<open>
  The \<^verbatim>\<open>while self.running\<close> loop over the iterations the outside world provides.
  The result is \<open>None\<close> when the loop is still running after the last of them;
  otherwise it says whether \<^verbatim>\<open>SystemExit\<close> is on its way out, with the state at the
  end of the loop.
\<close>

fun run_loop :: "monitor \<Rightarrow> nat \<Rightarrow> tick list \<Rightarrow> (bool \<times> monitor) option" where
  "run_loop m success_counter [] = (if running m then None else Some (False, m))"
| "run_loop m success_counter (t # ts) =
     (if \<not> running m then Some (False, m)
      else (case tick_step m success_counter t of
              (Continue, m', counter) \<Rightarrow> run_loop m' counter ts
            | (Break, m', counter) \<Rightarrow> Some (False, m')
            | (Exit, m', counter) \<Rightarrow> Some (True, m')))"

text \<open>What \<^verbatim>\<open>run\<close> does for its caller: it returns a value or lets \<^verbatim>\<open>SystemExit\<close> out.\<close>

datatype outcome = Returned bool | SystemExit

text \<open>
  \<^verbatim>\<open>run\<close>: the entry test, the loop, and \<^verbatim>\<open>stop\<close> in the \<^verbatim>\<open>finally\<close> clause. The
  call of \<^verbatim>\<open>psutil.cpu_percent\<close> before the loop is taken to return; its value is
  not used. The test for a sampling result of \<^verbatim>\<open>None\<close> in the loop body has no
  counterpart here, because the sampling always returns two numbers. The pauses
  of \<^verbatim>\<open>time.sleep\<close> are not modelled.
\<close>

definition run :: "monitor \<Rightarrow> tick list \<Rightarrow> (outcome \<times> monitor) option" where
  "run m ticks =
     (if \<not> connected m then Some (Returned False, log_to m ERROR NoConnection)
      else (case run_loop (log_to (m\<lparr>running := True\<rparr>) INFO MonitoringStarted) 0 ticks of
              None \<Rightarrow> None
            | Some (exiting, m') \<Rightarrow>
                Some (if exiting then SystemExit else Returned True, stop m')))"

subsection \<open>Observations and concrete inputs\<close>

text \<open>The number of \<^verbatim>\<open>write\<close> calls the connection of the monitor has received.\<close>

definition write_calls :: "monitor \<Rightarrow> nat" where
  "write_calls m = (case serial_conn m of None \<Rightarrow> 0 | Some conn \<Rightarrow> length (tx conn))"

text \<open>A machine where no probe finds anything and \<^verbatim>\<open>psutil\<close> measures 7.5 percent.\<close>

definition env_no_probe :: sensor_env where
  "env_no_probe =
     \<lparr>cpu_percent_first = Some 0, cpu_percent_second = Some (15 / 2), proc_stat = Missing,
      fs = (\<lambda>p. Missing), hwmon_dirs = [], which_sensors = ProcFailed,
      sensors_run = ProcFailed\<rparr>"

text \<open>The same machine with the given text in the first of the fixed paths.\<close>

definition env_fixed_path :: "string \<Rightarrow> sensor_env" where
  "env_fixed_path text =
     env_no_probe\<lparr>fs := (\<lambda>p. if p = ''/sys/devices/pci0000:00/0000:00:18.3/hwmon/hwmon0/temp1_input''
                             then Content text else Missing)\<rparr>"


text \<open>A monitor after \<^verbatim>\<open>__init__\<close> whose connection has been opened, and iterations
  whose sampling reads 53.2 degrees and 7.5 percent.\<close>

definition open_monitor :: monitor where
  "open_monitor =
     (init_monitor ''/dev/ttyUSB0'' False)
       \<lparr>serial_conn := Some \<lparr>is_open = True, tx = [], close_calls = 0\<rparr>\<rparr>"

definition sample_tick :: "bool \<Rightarrow> tick" where
  "sample_tick ok =
     \<lparr>event = Sampled, sensors = env_fixed_path ''53200\<newline>'', write_ok = ok, incoming = None\<rparr>"

text \<open>The opened monitor inside the loop of \<^verbatim>\<open>run\<close>.\<close>

definition running_monitor :: monitor where
  "running_monitor = open_monitor\<lparr>running := True\<rparr>"

text \<open>A hwmon directory without a \<^verbatim>\<open>name\<close> file whose one leaf reads 45 degrees, and
  two directories whose leaves read 12.3, 45.6 and 30.0 degrees.\<close>

definition unnamed_device :: "hwmon_dir list" where
  "unnamed_device =
     [\<lparr>name_file = Missing,
       temp_leaves = [\<lparr>input_file = Content ''45000\<newline>'', label_file = Missing\<rparr>]\<rparr>]"

definition named_devices :: "hwmon_dir list" where
  "named_devices =
     [\<lparr>name_file = Content ''k10temp\<newline>'',
       temp_leaves = [\<lparr>input_file = Content ''12300\<newline>'', label_file = Missing\<rparr>,
                      \<lparr>input_file = Content ''45600\<newline>'', label_file = Content ''Tctl\<newline>''\<rparr>]\<rparr>,
      \<lparr>name_file = Missing,
       temp_leaves = [\<lparr>input_file = Content ''30000\<newline>'', label_file = Missing\<rparr>]\<rparr>]"

text \<open>Output of \<^verbatim>\<open>sensors\<close>: two core lines as the tool prints them, and two lines that
  also carry the degree sign with a small \<^verbatim>\<open>c\<close>.\<close>

definition degree_sign :: string where
  "degree_sign = [CHR 0xC2, CHR 0xB0]"

definition core_lines :: string where
  "core_lines =
     ''Core 0:        +55.0'' @ degree_sign @ ''C\<newline>'' @
     ''Core 1:        +57.0'' @ degree_sign @ ''C\<newline>''"

definition marked_lines :: string where
  "marked_lines =
     ''cpu '' @ degree_sign @ ''c: +55.0'' @ degree_sign @ ''C\<newline>'' @
     ''cpu '' @ degree_sign @ ''c: +57.0'' @ degree_sign @ ''C\<newline>''"

text \<open>A machine where \<^verbatim>\<open>psutil\<close> measures 0 and \<^verbatim>\<open>/proc/stat\<close> has idle 900 of 1000.\<close>

definition env_idle_900 :: sensor_env where
  "env_idle_900 =
     env_no_probe\<lparr>cpu_percent_second := Some 0,
                   proc_stat := Content ''cpu  60 0 40 900 0 0 0 0 0 0\<newline>cpu0 30 0 20 450 0 0 0 0 0 0\<newline>''\<rparr>"

section \<open>Properties\<close>

subsection \<open>The monitor object\<close>

lemma log_to_simps [simp]:
  "serial_conn (log_to m lv msg) = serial_conn m"
  "running (log_to m lv msg) = running m"
  "error_count (log_to m lv msg) = error_count m"
  "max_errors (log_to m lv msg) = max_errors m"
  "daemon_mode (log_to m lv msg) = daemon_mode m"
  "logged (log_to m lv msg) = logged m @ [(lv, msg)]"
  by (simp_all add: log_to_def)

lemma connected_log_to [simp]: "connected (log_to m lv msg) = connected m"
  by (simp add: connected_def)

lemma send_data_result: "fst (send_data m s w) = (connected m \<and> w)"
  by (cases "serial_conn m") (auto simp: send_data_def connected_def Let_def)

lemma send_data_fields:
  "running (snd (send_data m s w)) = running m"
  "error_count (snd (send_data m s w)) = error_count m"
  "max_errors (snd (send_data m s w)) = max_errors m"
  "connected (snd (send_data m s w)) = connected m"
  by (cases "serial_conn m"; auto simp: send_data_def connected_def Let_def)+

lemma send_data_closed: "\<not> connected m \<Longrightarrow> send_data m s w = (False, m)"
  by (cases "serial_conn m") (auto simp: send_data_def connected_def)

lemma send_data_tx:
  "serial_conn m = Some conn \<Longrightarrow> is_open conn \<Longrightarrow>
   serial_conn (snd (send_data m s w)) =
     Some (conn\<lparr>tx := tx conn @ [(if endswith s ''\<newline>'' then s else s @ ''\<newline>'', w)]\<rparr>)"
  by (simp add: send_data_def Let_def)

lemma tick_step_sent:
  assumes "event t = Sampled" "connected m" "write_ok t"
  shows "fst (tick_step m sc t) = Continue"
    and "error_count (fst (snd (tick_step m sc t))) = 0"
    and "running (fst (snd (tick_step m sc t))) = running m"
    and "max_errors (fst (snd (tick_step m sc t))) = max_errors m"
    and "connected (fst (snd (tick_step m sc t))) = connected m"
    and "snd (snd (tick_step m sc t)) = Suc sc"
  using assms
  by (auto simp: tick_step_def Let_def send_data_def connected_def read_response_def
      split: prod.splits option.splits)

lemma tick_step_failed:
  assumes "event t = Sampled" "\<not> (connected m \<and> write_ok t)"
  shows "fst (tick_step m sc t) = (if max_errors m \<le> error_count m + 1 then Break else Continue)"
    and "error_count (fst (snd (tick_step m sc t))) = error_count m + 1"
    and "running (fst (snd (tick_step m sc t))) = running m"
    and "max_errors (fst (snd (tick_step m sc t))) = max_errors m"
    and "connected (fst (snd (tick_step m sc t))) = connected m"
    and "snd (snd (tick_step m sc t)) = sc"
  using assms
  by (auto simp: tick_step_def Let_def send_data_def connected_def
      split: prod.splits option.splits)

lemma stop_fields:
  "running (stop m) = False"
  "connected (stop m) = False"
  "error_count (stop m) = error_count m"
  "max_errors (stop m) = max_errors m"
  by (simp_all add: stop_def connected_def Let_def split: option.splits)

text \<open>
  Claim C9. Calling \<^verbatim>\<open>stop\<close> twice in a row, from any state of the object: the
  second call changes nothing but the log, to which it adds its one line. So the
  connection object is the one the first call left (no second \<^verbatim>\<open>close\<close>), the
  monitor is not running and the connection is not open. \<^verbatim>\<open>stop\<close> has no
  failing branch: \<^verbatim>\<open>close\<close> is called only on an open connection and is taken not
  to raise.
\<close>

theorem stop_twice:
  "stop (stop m) = log_to (stop m) INFO MonitoringStopped \<and>
   serial_conn (stop (stop m)) = serial_conn (stop m) \<and>
   \<not> running (stop (stop m)) \<and> \<not> connected (stop (stop m))"
  by (simp add: stop_def connected_def Let_def log_to_def split: option.splits)

subsection \<open>The error budget\<close>

lemma write_calls_log_to [simp]: "write_calls (log_to m lv msg) = write_calls m"
  by (simp add: write_calls_def)

lemma tick_step_write_calls:
  "event t = Sampled \<Longrightarrow> connected m \<Longrightarrow>
   write_calls (fst (snd (tick_step m sc t))) = Suc (write_calls m)"
  by (auto simp: tick_step_def Let_def send_data_def connected_def read_response_def write_calls_def
      split: prod.splits option.splits)

lemma write_calls_stop [simp]: "write_calls (stop m) = write_calls m"
  by (simp add: stop_def write_calls_def Let_def split: option.splits)

lemma run_loop_successes:
  assumes "\<forall>t\<in>set oks. event t = Sampled \<and> write_ok t"
  shows "running m \<Longrightarrow> connected m \<Longrightarrow> error_count m = 0 \<Longrightarrow>
         \<exists>m' sc'. run_loop m sc (oks @ rest) = run_loop m' sc' rest \<and> running m' \<and> connected m' \<and>
            error_count m' = 0 \<and> max_errors m' = max_errors m \<and>
            write_calls m' = write_calls m + length oks"
  using assms
proof (induction oks arbitrary: m sc)
  case Nil
  then show ?case by auto
next
  case (Cons t oks)
  obtain fl m1 sc1 where st: "tick_step m sc t = (fl, m1, sc1)"
    by (cases "tick_step m sc t") auto
  have t: "event t = Sampled" "write_ok t" using Cons.prems by auto
  have fl: "fl = Continue" using tick_step_sent(1)[OF t(1) Cons.prems(2) t(2), of sc] st by simp
  have m1: "running m1" "connected m1" "error_count m1 = 0" "max_errors m1 = max_errors m"
    using tick_step_sent(2-5)[OF t(1) Cons.prems(2) t(2), of sc] st Cons.prems by simp_all
  have w1: "write_calls m1 = Suc (write_calls m)"
    using tick_step_write_calls[OF t(1) Cons.prems(2), of sc] st by simp
  from Cons.IH[OF m1(1,2,3), of sc1] Cons.prems(4)
  obtain m' sc' where r: "run_loop m1 sc1 (oks @ rest) = run_loop m' sc' rest" "running m'"
    "connected m'" "error_count m' = 0" "max_errors m' = max_errors m1"
    "write_calls m' = write_calls m1 + length oks"
    by auto
  have "run_loop m sc ((t # oks) @ rest) = run_loop m1 sc1 (oks @ rest)"
    using st fl Cons.prems(1) by simp
  with r m1 w1 show ?case by auto
qed

lemma run_loop_failures:
  assumes "\<forall>t\<in>set fails. event t = Sampled \<and> \<not> write_ok t"
  shows "running m \<Longrightarrow> connected m \<Longrightarrow> fails \<noteq> [] \<Longrightarrow>
         error_count m + int (length fails) = max_errors m \<Longrightarrow>
         \<exists>m'. run_loop m sc (fails @ rest) = Some (False, m') \<and> connected m' \<and>
            error_count m' = max_errors m \<and> write_calls m' = write_calls m + length fails"
  using assms
proof (induction fails arbitrary: m sc)
  case Nil
  then show ?case by simp
next
  case (Cons t fails)
  obtain fl m1 sc1 where st: "tick_step m sc t = (fl, m1, sc1)"
    by (cases "tick_step m sc t") auto
  have t: "event t = Sampled" "\<not> (connected m \<and> write_ok t)" using Cons.prems by auto
  have fl: "fl = (if max_errors m \<le> error_count m + 1 then Break else Continue)"
    using tick_step_failed(1)[OF t, of sc] st by simp
  have m1: "running m1" "connected m1" "error_count m1 = error_count m + 1"
    "max_errors m1 = max_errors m"
    using tick_step_failed(2-5)[OF t, of sc] st Cons.prems by simp_all
  have w1: "write_calls m1 = Suc (write_calls m)"
    using tick_step_write_calls[OF t(1) Cons.prems(2), of sc] st by simp
  show ?case
  proof (cases "fails = []")
    case True
    then have "fl = Break" using fl Cons.prems(4) by simp
    then have "run_loop m sc ((t # fails) @ rest) = Some (False, m1)"
      using st Cons.prems(1) by simp
    then show ?thesis using m1 w1 True Cons.prems(4) by simp
  next
    case False
    then have pos: "0 < int (length fails)" by simp
    have "int (length (t # fails)) = 1 + int (length fails)" by simp
    then have "error_count m + 1 < max_errors m" using pos Cons.prems(4) by linarith
    then have "fl = Continue" using fl by simp
    then have step: "run_loop m sc ((t # fails) @ rest) = run_loop m1 sc1 (fails @ rest)"
      using st Cons.prems(1) by simp
    have "error_count m1 + int (length fails) = max_errors m1"
      using m1 Cons.prems(4) by simp
    from Cons.IH[OF m1(1,2) False this, of sc1] Cons.prems(5)
    obtain m' where "run_loop m1 sc1 (fails @ rest) = Some (False, m')" "connected m'"
      "error_count m' = max_errors m1" "write_calls m' = write_calls m1 + length fails"
      by auto
    then show ?thesis using step m1 w1 by auto
  qed
qed

text \<open>
  Claim C2. With the budget \<^verbatim>\<open>max_errors = 10\<close>: after any number of iterations
  whose send succeeds, ten iterations in a row whose send fails end \<^verbatim>\<open>run\<close>. It
  returns, the monitor is stopped and its connection closed, and the port has
  received exactly ten \<^verbatim>\<open>write\<close> calls since the last success, whatever iterations
  \<open>rest\<close> the outside world would still have offered: there is no eleventh send.
\<close>

theorem run_stops_after_ten_failures:
  assumes "connected m" and "error_count m = 0" and "max_errors m = 10"
    and "\<forall>t\<in>set oks. event t = Sampled \<and> write_ok t"
    and "length fails = 10" and "\<forall>t\<in>set fails. event t = Sampled \<and> \<not> write_ok t"
  shows "\<exists>m'. run m (oks @ fails @ rest) = Some (Returned True, m') \<and>
           \<not> running m' \<and> \<not> connected m' \<and> error_count m' = 10 \<and>
           write_calls m' = write_calls m + length oks + 10"
proof -
  let ?m0 = "log_to (m\<lparr>running := True\<rparr>) INFO MonitoringStarted"
  have m0: "running ?m0" "connected ?m0" "error_count ?m0 = 0" "max_errors ?m0 = 10"
    "write_calls ?m0 = write_calls m"
    using assms(1-3) by (simp_all add: connected_def write_calls_def)
  from run_loop_successes[OF assms(4) m0(1-3), of 0 "fails @ rest"]
  obtain m1 sc1 where m1: "run_loop ?m0 0 (oks @ fails @ rest) = run_loop m1 sc1 (fails @ rest)"
    "running m1" "connected m1" "error_count m1 = 0" "max_errors m1 = max_errors ?m0"
    "write_calls m1 = write_calls ?m0 + length oks"
    by blast
  have ne: "fails \<noteq> []" using assms(5) by auto
  have budget: "error_count m1 + int (length fails) = max_errors m1"
    using m1(4,5) m0(4) assms(5) by simp
  from run_loop_failures[OF assms(6) m1(2,3) ne budget, of sc1 rest]
  obtain m2 where m2: "run_loop m1 sc1 (fails @ rest) = Some (False, m2)" "connected m2"
    "error_count m2 = max_errors m1" "write_calls m2 = write_calls m1 + length fails"
    by blast
  have "run m (oks @ fails @ rest) = Some (Returned True, stop m2)"
    using assms(1) m1(1) m2(1) by (simp add: run_def)
  moreover have "\<not> running (stop m2)" "\<not> connected (stop m2)" "error_count (stop m2) = 10"
    "write_calls (stop m2) = write_calls m + length oks + 10"
    using m2 m1 m0 assms(5) by (simp_all add: stop_fields)
  ultimately show ?thesis by blast
qed

theorem run_stops_after_ten_failures_witness:
  "connected open_monitor \<and> error_count open_monitor = 0 \<and> max_errors open_monitor = 10 \<and>
   event (sample_tick True) = Sampled \<and> write_ok (sample_tick True) \<and>
   event (sample_tick False) = Sampled \<and> \<not> write_ok (sample_tick False) \<and>
   length (replicate 10 (sample_tick False)) = 10 \<and>
   (\<exists>m'. run open_monitor
            ([sample_tick True] @ replicate 10 (sample_tick False) @ [sample_tick True]) =
              Some (Returned True, m') \<and>
           \<not> running m' \<and> \<not> connected m' \<and> error_count m' = 10 \<and>
           write_calls m' = write_calls open_monitor + length [sample_tick True] + 10)"
proof -
  have h: "connected open_monitor" "error_count open_monitor = 0" "max_errors open_monitor = 10"
    by (simp_all add: open_monitor_def init_monitor_def connected_def)
  have e: "event (sample_tick True) = Sampled" "write_ok (sample_tick True)"
    "event (sample_tick False) = Sampled" "\<not> write_ok (sample_tick False)"
    by (simp_all add: sample_tick_def)
  have o: "\<forall>t\<in>set [sample_tick True]. event t = Sampled \<and> write_ok t"
    using e by simp
  have l: "length (replicate 10 (sample_tick False)) = 10" by simp
  have f: "\<forall>t\<in>set (replicate 10 (sample_tick False)). event t = Sampled \<and> \<not> write_ok t"
    using e by simp
  show ?thesis
    using h e l run_stops_after_ten_failures[OF h o l f, of "[sample_tick True]"] by blast
qed

subsection \<open>Sending\<close>

text \<open>
  Claim C10. \<^verbatim>\<open>send_data\<close> has no failing result: it returns \<^verbatim>\<open>True\<close> exactly when
  the connection object exists, is open and \<^verbatim>\<open>write\<close> completes. With the
  connection absent or closed it returns \<^verbatim>\<open>False\<close> and leaves the object as it
  is, and the loop counts that iteration against the budget like any failed send:
  no exception leaves the iteration and \<^verbatim>\<open>error_count\<close> grows by one.
\<close>

theorem send_data_never_raises:
  "fst (send_data m s w) = (connected m \<and> w) \<and>
   (\<not> connected m \<longrightarrow> send_data m s w = (False, m)) \<and>
   (event t = Sampled \<and> \<not> connected m \<longrightarrow>
      fst (tick_step m sc t) \<noteq> Exit \<and>
      error_count (fst (snd (tick_step m sc t))) = error_count m + 1)"
  using tick_step_failed(1,2)[of t m sc]
  by (auto simp: send_data_result send_data_closed)

theorem send_data_never_raises_witness:
  "event (sample_tick True) = Sampled \<and> \<not> connected (stop open_monitor) \<and>
   send_data (stop open_monitor) ''TEMP:53.2|LOAD:7.5'' True = (False, stop open_monitor) \<and>
   fst (tick_step (stop open_monitor) 0 (sample_tick True)) \<noteq> Exit \<and>
   error_count (fst (snd (tick_step (stop open_monitor) 0 (sample_tick True)))) = 1"
  using send_data_never_raises[of "stop open_monitor" "''TEMP:53.2|LOAD:7.5''" True "sample_tick True" 0]
  by (simp add: stop_fields sample_tick_def open_monitor_def init_monitor_def)

text \<open>
  Claim C7. An iteration whose send succeeds leaves \<^verbatim>\<open>error_count\<close> at 0. In
  particular, from a running monitor with count 0, an iteration whose send fails
  (count 1) followed by one whose send succeeds leaves the count at 0, and the
  loop goes on from that state.
\<close>

theorem successful_send_resets_count:
  "(event t = Sampled \<and> connected m \<and> write_ok t \<longrightarrow>
      error_count (fst (snd (tick_step m sc t))) = 0) \<and>
   (running m \<and> connected m \<and> error_count m = 0 \<and> 1 < max_errors m \<and>
    event t1 = Sampled \<and> \<not> write_ok t1 \<and> event t2 = Sampled \<and> write_ok t2 \<longrightarrow>
      (\<exists>m1 m2. tick_step m sc t1 = (Continue, m1, sc) \<and> error_count m1 = 1 \<and>
               tick_step m1 sc t2 = (Continue, m2, Suc sc) \<and> error_count m2 = 0 \<and>
               run_loop m sc (t1 # t2 # rest) = run_loop m2 (Suc sc) rest))"
proof (intro conjI impI)
  assume "event t = Sampled \<and> connected m \<and> write_ok t"
  then show "error_count (fst (snd (tick_step m sc t))) = 0"
    using tick_step_sent(2) by blast
next
  assume a: "running m \<and> connected m \<and> error_count m = 0 \<and> 1 < max_errors m \<and>
    event t1 = Sampled \<and> \<not> write_ok t1 \<and> event t2 = Sampled \<and> write_ok t2"
  obtain f1 m1 c1 where s1: "tick_step m sc t1 = (f1, m1, c1)"
    by (cases "tick_step m sc t1") auto
  have t1: "event t1 = Sampled" "\<not> (connected m \<and> write_ok t1)" using a by auto
  have r1: "f1 = Continue" "error_count m1 = 1" "running m1" "connected m1" "c1 = sc"
    using tick_step_failed[OF t1, of sc] s1 a by simp_all
  obtain f2 m2 c2 where s2: "tick_step m1 sc t2 = (f2, m2, c2)"
    by (cases "tick_step m1 sc t2") auto
  have t2: "event t2 = Sampled" "write_ok t2" using a by auto
  have r2: "f2 = Continue" "error_count m2 = 0" "c2 = Suc sc"
    using tick_step_sent[OF t2(1) r1(4) t2(2), of sc] s2 by simp_all
  have "run_loop m sc (t1 # t2 # rest) = run_loop m2 (Suc sc) rest"
    using a s1 s2 r1 r2 by simp
  then show "\<exists>m1 m2. tick_step m sc t1 = (Continue, m1, sc) \<and> error_count m1 = 1 \<and>
               tick_step m1 sc t2 = (Continue, m2, Suc sc) \<and> error_count m2 = 0 \<and>
               run_loop m sc (t1 # t2 # rest) = run_loop m2 (Suc sc) rest"
    using s1 s2 r1 r2 by blast
qed

theorem successful_send_resets_count_witness:
  "event (sample_tick True) = Sampled \<and> connected running_monitor \<and> write_ok (sample_tick True) \<and>
   error_count (fst (snd (tick_step running_monitor 0 (sample_tick True)))) = 0 \<and>
   running running_monitor \<and> error_count running_monitor = 0 \<and> 1 < max_errors running_monitor \<and>
   event (sample_tick False) = Sampled \<and> \<not> write_ok (sample_tick False) \<and>
   (\<exists>m1 m2. tick_step running_monitor 0 (sample_tick False) = (Continue, m1, 0) \<and> error_count m1 = 1 \<and>
            tick_step m1 0 (sample_tick True) = (Continue, m2, Suc 0) \<and> error_count m2 = 0 \<and>
            run_loop running_monitor 0 [sample_tick False, sample_tick True] = run_loop m2 (Suc 0) [])"
  using successful_send_resets_count[of "sample_tick True" running_monitor 0 "sample_tick False" "sample_tick True" "[]"]
  by (simp add: sample_tick_def running_monitor_def open_monitor_def init_monitor_def connected_def)

subsection \<open>Rounding\<close>

lemma bit_len_bounds: "0 < n \<Longrightarrow> 2 ^ (bit_len n - 1) \<le> n \<and> n < 2 ^ bit_len n"
proof (induction n rule: bit_len.induct)
  case (1 n)
  show ?case
  proof (cases "n = 1")
    case True
    have "bit_len 1 = 1" by (simp add: bit_len.simps)
    then show ?thesis using True by simp
  next
    case False
    then have h: "0 < n div 2" using 1(2) by simp
    then have ih: "2 ^ (bit_len (n div 2) - 1) \<le> n div 2" "n div 2 < 2 ^ bit_len (n div 2)"
      using 1 by simp_all
    have pos: "0 < bit_len (n div 2)" using h by (subst bit_len.simps) simp
    have b: "bit_len n = Suc (bit_len (n div 2))" using 1(2) by (subst bit_len.simps) simp
    have "2 ^ (bit_len n - 1) = (2::int) * 2 ^ (bit_len (n div 2) - 1)"
      using b pos by (cases "bit_len (n div 2)") simp_all
    also have "\<dots> \<le> 2 * (n div 2)" using ih(1) by simp
    also have "\<dots> \<le> n" by simp
    finally have lo: "2 ^ (bit_len n - 1) \<le> n" .
    have "n < 2 * (n div 2 + 1)" by simp
    also have "\<dots> \<le> 2 * 2 ^ bit_len (n div 2)" using ih(2) by simp
    also have "\<dots> = 2 ^ bit_len n" using b by simp
    finally show ?thesis using lo by simp
  qed
qed

lemma pow2_bounds: "0 < y \<Longrightarrow> 0 < pow2 y \<and> pow2 y \<le> y"
proof (cases "1 \<le> y")
  case True
  then have "0 < \<lfloor>y\<rfloor>" by simp
  then have "(2::int) ^ (bit_len \<lfloor>y\<rfloor> - 1) \<le> \<lfloor>y\<rfloor>" using bit_len_bounds by blast
  then have "(of_int ((2::int) ^ (bit_len \<lfloor>y\<rfloor> - 1)) :: rat) \<le> of_int \<lfloor>y\<rfloor>"
    by (simp only: of_int_le_iff)
  also have "\<dots> \<le> y" by simp
  finally show ?thesis using True by (simp add: pow2_def)
next
  case False
  assume y: "0 < y"
  let ?n = "\<lceil>1 / y\<rceil>"
  have "1 < 1 / y" using False y by simp
  then have n: "1 < ?n" by (simp add: less_ceiling_iff)
  then have "?n - 1 < 2 ^ bit_len (?n - 1)" using bit_len_bounds[of "?n - 1"] by simp
  then have "?n \<le> 2 ^ bit_len (?n - 1)" by simp
  then have "(of_int ?n :: rat) \<le> of_int (2 ^ bit_len (?n - 1))"
    by (rule iffD2[OF of_int_le_iff])
  then have "(of_int ?n :: rat) \<le> 2 ^ bit_len (?n - 1)" by simp
  moreover have "1 / y \<le> of_int ?n" by (rule le_of_int_ceiling)
  ultimately have "1 / y \<le> 2 ^ bit_len (?n - 1)" by (rule order_trans[rotated])
  then have "1 \<le> 2 ^ bit_len (?n - 1) * y" using y by (simp add: pos_divide_le_eq)
  then have "1 / 2 ^ bit_len (?n - 1) \<le> y"
    by (simp add: pos_divide_le_eq mult.commute)
  then show ?thesis using False by (simp add: pow2_def)
qed

lemma round_half_even_close: "\<bar>of_int (round_half_even y) - y\<bar> \<le> 1 / 2"
proof -
  have a: "of_int \<lfloor>y\<rfloor> \<le> y" "y < of_int \<lfloor>y\<rfloor> + 1" by linarith+
  show ?thesis
    using a by (auto simp: round_half_even_def Let_def abs_le_iff)
qed

lemma fl_error: "\<bar>fl x - x\<bar> \<le> \<bar>x\<bar> / 2 ^ 53"
proof (cases "x = 0")
  case True
  then show ?thesis by (simp add: fl_def)
next
  case False
  define q where "q = pow2 \<bar>x\<bar> / 2 ^ 52"
  have p: "0 < pow2 \<bar>x\<bar>" "pow2 \<bar>x\<bar> \<le> \<bar>x\<bar>" using pow2_bounds[of "\<bar>x\<bar>"] False by simp_all
  have q: "0 < q" "q \<le> \<bar>x\<bar> / 2 ^ 52" using p by (simp_all add: q_def divide_right_mono)
  have f: "fl x = of_int (round_half_even (x / q)) * q"
    using False by (simp add: fl_def Let_def q_def)
  have "\<bar>of_int (round_half_even (x / q)) - x / q\<bar> \<le> 1 / 2" by (rule round_half_even_close)
  then have "\<bar>of_int (round_half_even (x / q)) - x / q\<bar> * q \<le> (1 / 2) * q"
    using q(1) by (simp add: mult_right_mono)
  moreover have "\<bar>of_int (round_half_even (x / q)) - x / q\<bar> * q = \<bar>fl x - x\<bar>"
  proof -
    have "(of_int (round_half_even (x / q)) - x / q) * q = fl x - x"
      using q(1) f by (simp add: algebra_simps)
    then have "\<bar>fl x - x\<bar> = \<bar>(of_int (round_half_even (x / q)) - x / q) * q\<bar>" by simp
    also have "\<dots> = \<bar>of_int (round_half_even (x / q)) - x / q\<bar> * q"
      using q(1) by (simp add: abs_mult)
    finally show ?thesis by simp
  qed
  ultimately have "\<bar>fl x - x\<bar> \<le> q / 2" by simp
  also have "\<dots> \<le> (\<bar>x\<bar> / 2 ^ 52) / 2" using q(2) by simp
  also have "\<dots> = \<bar>x\<bar> / 2 ^ 53" by simp
  finally show ?thesis .
qed

lemma round_half_even_unique:
  assumes "\<bar>y - of_int k\<bar> < 1 / 2"
  shows "round_half_even y = k"
proof -
  have "\<bar>of_int (round_half_even y) - y\<bar> \<le> 1 / 2" by (rule round_half_even_close)
  then have "\<bar>(of_int (round_half_even y) :: rat) - of_int k\<bar> < 1" using assms by linarith
  then have "\<bar>(of_int (round_half_even y - k) :: rat)\<bar> < 1" by simp
  then have "\<bar>round_half_even y - k\<bar> < 1"
    by (metis of_int_abs of_int_less_1_iff)
  then show ?thesis by linarith
qed

lemma fl_tenth:
  assumes "0 \<le> k" "k < 2 ^ 50"
  shows "round_half_even (fl (of_int k / 10) * 10) = k"
proof (rule round_half_even_unique)
  let ?x = "of_int k / 10 :: rat"
  define d where "d = fl ?x - ?x"
  have "\<bar>d\<bar> \<le> \<bar>?x\<bar> / 2 ^ 53" unfolding d_def by (rule fl_error)
  moreover have "\<bar>?x\<bar> = of_int k / 10" using assms(1) by simp
  moreover have "(of_int k :: rat) < 2 ^ 50"
    using assms(2) by (metis of_int_less_iff of_int_numeral of_int_power)
  ultimately have "\<bar>d\<bar> < (2 ^ 50 / 10) / 2 ^ 53"
    by (simp add: divide_strict_right_mono)
  then have "\<bar>d\<bar> < 1 / 80" by simp
  moreover have "fl ?x * 10 - of_int k = d * 10" by (simp add: d_def algebra_simps)
  moreover have "\<bar>d * 10\<bar> = \<bar>d\<bar> * 10" by (simp add: abs_mult)
  ultimately show "\<bar>fl ?x * 10 - of_int k\<bar> < 1 / 2" by linarith
qed

lemma round_half_even_bounds: "\<lfloor>y\<rfloor> \<le> round_half_even y \<and> round_half_even y \<le> \<lceil>y\<rceil>"
proof -
  have "round_half_even y = \<lfloor>y\<rfloor> \<or> (round_half_even y = \<lfloor>y\<rfloor> + 1 \<and> 1 / 2 \<le> y - of_int \<lfloor>y\<rfloor>)"
    by (auto simp: round_half_even_def Let_def)
  moreover have "1 / 2 \<le> y - of_int \<lfloor>y\<rfloor> \<Longrightarrow> \<lfloor>y\<rfloor> + 1 \<le> \<lceil>y\<rceil>"
  proof -
    assume "1 / 2 \<le> y - of_int \<lfloor>y\<rfloor>"
    then have "of_int \<lfloor>y\<rfloor> < y" by simp
    then have "\<lfloor>y\<rfloor> < \<lceil>y\<rceil>" by (simp add: less_ceiling_iff)
    then show ?thesis by simp
  qed
  moreover have "\<lfloor>y\<rfloor> \<le> \<lceil>y\<rceil>" by (rule floor_le_ceiling)
  ultimately show ?thesis by auto
qed

lemma fl_nonneg: "0 \<le> x \<Longrightarrow> 0 \<le> fl x"
proof -
  assume x: "0 \<le> x"
  have "\<bar>fl x - x\<bar> \<le> \<bar>x\<bar> / 2 ^ 53" by (rule fl_error)
  moreover have "\<bar>x\<bar> / 2 ^ 53 \<le> x" using x by (simp add: field_simps)
  ultimately show ?thesis by linarith
qed

lemma py_round1_range:
  assumes "0 \<le> x" "x \<le> 120"
  shows "0 \<le> py_round1 x \<and> py_round1 x \<le> 120"
proof -
  define y where "y = fl x * 10"
  define k where "k = round_half_even y"
  have e: "\<bar>fl x - x\<bar> \<le> \<bar>x\<bar> / 2 ^ 53" by (rule fl_error)
  have "\<bar>x\<bar> / 2 ^ 53 \<le> 120 / 2 ^ 53" using assms by (simp add: divide_right_mono)
  then have "fl x \<le> 120 + 120 / 2 ^ 53" using e assms by linarith
  then have up: "y < 1200 + 1 / 2" by (simp add: y_def)
  have lo: "0 \<le> y" using fl_nonneg[OF assms(1)] by (simp add: y_def)
  have "0 \<le> \<lfloor>y\<rfloor>" using lo by simp
  then have k0: "0 \<le> k" using round_half_even_bounds[of y] unfolding k_def by linarith
  have "\<bar>of_int k - y\<bar> \<le> 1 / 2" unfolding k_def by (rule round_half_even_close)
  then have "(of_int k :: rat) < 1201" using up by linarith
  then have "k < 1201" by (metis of_int_less_iff of_int_numeral)
  then have k1: "k \<le> 1200" by simp
  have "(0::rat) \<le> of_int k" "(of_int k :: rat) \<le> 1200" using k0 k1 by simp_all
  then show ?thesis by (simp add: py_round1_def y_def[symmetric] k_def[symmetric])
qed

lemma py_round1_floor:
  assumes "1 / 10 \<le> x"
  shows "1 / 10 \<le> py_round1 x"
proof -
  define y where "y = fl x * 10"
  define k where "k = round_half_even y"
  have e: "\<bar>fl x - x\<bar> \<le> \<bar>x\<bar> / 2 ^ 53" by (rule fl_error)
  have "\<bar>x\<bar> / 2 ^ 53 \<le> x / 4" using assms by (simp add: field_simps)
  then have "x * 3 / 4 \<le> fl x" using e assms by linarith
  then have "3 / 4 \<le> y" using assms by (simp add: y_def)
  moreover have "\<bar>of_int k - y\<bar> \<le> 1 / 2" unfolding k_def by (rule round_half_even_close)
  ultimately have "(0::rat) < of_int k" by linarith
  then have "0 < k" by simp
  then have "(1::rat) \<le> of_int k" by simp
  then show ?thesis by (simp add: py_round1_def y_def[symmetric] k_def[symmetric])
qed

lemma py_round1_tenth:
  "0 \<le> k \<Longrightarrow> k < 2 ^ 50 \<Longrightarrow> py_round1 (of_int k / 10) = of_int k / 10"
  by (simp add: py_round1_def fl_tenth)

lemma py_round1_40: "py_round1 40 = 40"
  using py_round1_tenth[of 400] by simp

lemma py_round1_15_2: "py_round1 (15 / 2) = 15 / 2"
  using py_round1_tenth[of 75] by simp

lemma py_round1_266_5: "py_round1 (266 / 5) = 266 / 5"
  using py_round1_tenth[of 532] by simp



lemma py_round1_idem:
  assumes "0 \<le> py_round1 x" "py_round1 x \<le> 1000"
  shows "py_round1 (py_round1 x) = py_round1 x"
proof -
  define k where "k = round_half_even (fl x * 10)"
  have p: "py_round1 x = of_int k / 10" by (simp add: py_round1_def k_def)
  have "(0::rat) \<le> of_int k" "(of_int k :: rat) \<le> 10000" using assms p by simp_all
  then have "0 \<le> k" "k \<le> 10000" by simp_all
  then have "0 \<le> k" "k < 2 ^ 50" by simp_all
  then show ?thesis unfolding p by (rule py_round1_tenth)
qed

subsection \<open>The probes and the chain\<close>

lemmas text_eval = is_digit_def is_space_def isdigit_def strip_def remove_dots_def
  digit_val_def nat_of_digits_def float_unsigned_def py_float_def

lemma amd_read_path_range: "amd_read_path f = Some t \<Longrightarrow> 0 \<le> t \<and> t \<le> 120"
  by (auto simp: amd_read_path_def Let_def split: file_state.splits option.splits if_splits)

lemma amd_loop_range: "amd_loop files ps = Some t \<Longrightarrow> 0 \<le> t \<and> t \<le> 120"
  by (induction ps) (auto split: option.splits dest: amd_read_path_range)

lemma sysfs_leaves_range:
  "sysfs_leaves dn ls temps = Inr r \<Longrightarrow> \<forall>t\<in>set temps. 0 \<le> t \<and> t \<le> 120 \<Longrightarrow>
   \<forall>t\<in>set r. 0 \<le> t \<and> t \<le> 120"
proof (induction ls arbitrary: temps)
  case Nil
  then show ?case by simp
next
  case (Cons l ls)
  show ?case
  proof (cases "sysfs_leaves dn ls temps = Inr r")
    case True
    then show ?thesis using Cons.IH Cons.prems(2) by blast
  next
    case False
    then obtain v where v: "0 \<le> v / 1000" "v / 1000 \<le> 120"
      "sysfs_leaves dn ls (temps @ [v / 1000]) = Inr r"
      using Cons.prems(1)
      by (auto simp: Let_def split: file_state.splits option.splits if_splits)
    have "\<forall>t\<in>set (temps @ [v / 1000]). 0 \<le> t \<and> t \<le> 120"
      using Cons.prems(2) v by auto
    then show ?thesis using Cons.IH v(3) by blast
  qed
qed

lemma sysfs_dirs_range:
  "sysfs_dirs dn ds temps = Inr r \<Longrightarrow> \<forall>t\<in>set temps. 0 \<le> t \<and> t \<le> 120 \<Longrightarrow>
   \<forall>t\<in>set r. 0 \<le> t \<and> t \<le> 120"
proof (induction ds arbitrary: dn temps)
  case Nil
  then show ?case by simp
next
  case (Cons d ds)
  show ?case
  proof (cases "name_file d")
    case Missing
    then obtain r1 where "sysfs_leaves dn (temp_leaves d) temps = Inr r1"
      "sysfs_dirs dn ds r1 = Inr r"
      using Cons.prems(1) by (auto split: sum.splits)
    then show ?thesis using Cons.IH sysfs_leaves_range Cons.prems(2) by blast
  next
    case IOFail
    then show ?thesis using Cons by auto
  next
    case DecodeFail
    then show ?thesis using Cons.prems(1) by simp
  next
    case (Content body)
    then obtain r1 where "sysfs_leaves (Some (strip body)) (temp_leaves d) temps = Inr r1"
      "sysfs_dirs (Some (strip body)) ds r1 = Inr r"
      using Cons.prems(1) by (auto split: sum.splits)
    then show ?thesis using Cons.IH sysfs_leaves_range Cons.prems(2) by blast
  qed
qed

lemma foldl_max_mem: "foldl max (t::rat) ts \<in> set (t # ts)"
  by (induction ts arbitrary: t) (auto simp: max_def)

lemma foldl_max_Max: "foldl max (t::rat) ts = Max (set (t # ts))"
proof (induction ts arbitrary: t)
  case Nil
  then show ?case by simp
next
  case (Cons a ts)
  have "Max (set (t # a # ts)) = Max (insert (max t a) (set ts))"
    by (cases "ts = []") (simp_all add: max.assoc)
  then show ?case using Cons[of "max t a"] by simp
qed

lemma sysfs_range: "get_cpu_temp_from_sysfs dirs = Some t \<Longrightarrow> 0 \<le> t \<and> t \<le> 120"
proof -
  assume a: "get_cpu_temp_from_sysfs dirs = Some t"
  then obtain x xs where r: "sysfs_dirs None dirs [] = Inr (x # xs)" "t = foldl max x xs"
    by (auto simp: get_cpu_temp_from_sysfs_def split: if_splits sum.splits list.splits)
  have "\<forall>t\<in>set (x # xs). 0 \<le> t \<and> t \<le> 120"
    using sysfs_dirs_range[OF r(1)] by simp
  then show ?thesis using foldl_max_mem[of x xs] r(2) by blast
qed

lemma lm_collect_range: "\<forall>t\<in>set (lm_collect ls). 0 \<le> t \<and> t \<le> 120"
  by (induction ls) (auto split: option.splits)

lemma sum_list_bounds:
  "\<forall>t\<in>set (ts::rat list). 0 \<le> t \<and> t \<le> 120 \<Longrightarrow>
   0 \<le> sum_list ts \<and> sum_list ts \<le> 120 * of_nat (length ts)"
  by (induction ts) (auto simp: algebra_simps)

lemma lm_sensors_range:
  "get_cpu_temp_from_lm_sensors w r = Some t \<Longrightarrow> 0 \<le> t \<and> t \<le> 120"
proof -
  assume "get_cpu_temp_from_lm_sensors w r = Some t"
  then obtain ts where ts: "ts \<noteq> []" "\<forall>t\<in>set ts. 0 \<le> t \<and> t \<le> 120"
    "t = sum_list ts / of_nat (length ts)"
    using lm_collect_range
    by (auto simp: get_cpu_temp_from_lm_sensors_def Let_def split: proc.splits if_splits)
  have pos: "(0::rat) < of_nat (length ts)" using ts(1) by simp
  have "0 \<le> sum_list ts" "sum_list ts \<le> 120 * of_nat (length ts)"
    using sum_list_bounds[OF ts(2)] by simp_all
  then show ?thesis using pos ts(3) by (simp add: pos_divide_le_eq)
qed

text \<open>
  Claim C1, as the code has it. \<^verbatim>\<open>get_cpu_temperature_linux\<close> returns a pair of
  temperature and load and no source tag. The temperature is in \<open>[0, 120]\<close> for
  every state of the three probes; when none of them yields a reading the
  temperature is 40.0 and one warning is given to the logger.
\<close>

theorem chain_value_in_range:
  "0 \<le> fst (fst (get_cpu_temperature_linux env)) \<and>
   fst (fst (get_cpu_temperature_linux env)) \<le> 120 \<and>
   (get_cpu_temp_from_amd_specific (fs env) = None \<and>
    get_cpu_temp_from_sysfs (hwmon_dirs env) = None \<and>
    get_cpu_temp_from_lm_sensors (which_sensors env) (sensors_run env) = None \<longrightarrow>
      get_cpu_temperature_linux env =
        ((40, py_round1 (get_cpu_load env)), [(WARNING, NoTemperatureUsingSafeValue)]))"
proof -
  let ?a = "get_cpu_temp_from_amd_specific (fs env)"
  let ?s = "get_cpu_temp_from_sysfs (hwmon_dirs env)"
  let ?l = "get_cpu_temp_from_lm_sensors (which_sensors env) (sensors_run env)"
  have ra: "\<And>t. ?a = Some t \<Longrightarrow> 0 \<le> t \<and> t \<le> 120"
    unfolding get_cpu_temp_from_amd_specific_def by (rule amd_loop_range)
  have rs: "\<And>t. ?s = Some t \<Longrightarrow> 0 \<le> t \<and> t \<le> 120" by (rule sysfs_range)
  have rl: "\<And>t. ?l = Some t \<Longrightarrow> 0 \<le> t \<and> t \<le> 120" by (rule lm_sensors_range)
  have r40: "0 \<le> py_round1 40 \<and> py_round1 40 \<le> 120" by (simp add: py_round1_40)
  have range: "0 \<le> fst (fst (get_cpu_temperature_linux env)) \<and>
      fst (fst (get_cpu_temperature_linux env)) \<le> 120"
  proof (cases ?a)
    case (Some t)
    then show ?thesis using py_round1_range ra
      by (simp add: get_cpu_temperature_linux_def Let_def)
  next
    case None
    note a = this
    show ?thesis
    proof (cases ?s)
      case (Some t)
      then show ?thesis using a py_round1_range rs
        by (simp add: get_cpu_temperature_linux_def Let_def)
    next
      case None
      note s = this
      show ?thesis
      proof (cases ?l)
        case (Some t)
        then show ?thesis using a s py_round1_range rl
          by (simp add: get_cpu_temperature_linux_def Let_def)
      next
        case None
        then show ?thesis using a s r40
          by (simp add: get_cpu_temperature_linux_def Let_def)
      qed
    qed
  qed
  moreover have "?a = None \<and> ?s = None \<and> ?l = None \<longrightarrow>
      get_cpu_temperature_linux env =
        ((40, py_round1 (get_cpu_load env)), [(WARNING, NoTemperatureUsingSafeValue)])"
    by (simp add: get_cpu_temperature_linux_def Let_def py_round1_40)
  ultimately show ?thesis by blast
qed

lemma no_probe_amd: "get_cpu_temp_from_amd_specific (fs env_no_probe) = None"
  by (simp add: get_cpu_temp_from_amd_specific_def amd_temp_paths_def env_no_probe_def
      amd_read_path_def)

lemma no_probe_sysfs: "get_cpu_temp_from_sysfs (hwmon_dirs env_no_probe) = None"
  by (simp add: get_cpu_temp_from_sysfs_def env_no_probe_def)

lemma no_probe_lm:
  "get_cpu_temp_from_lm_sensors (which_sensors env_no_probe) (sensors_run env_no_probe) = None"
  by (simp add: get_cpu_temp_from_lm_sensors_def env_no_probe_def)

lemma no_probe_load: "get_cpu_load env_no_probe = 15 / 2"
  by (simp add: get_cpu_load_def env_no_probe_def)

lemma fixed_path_load: "get_cpu_load (env_fixed_path text) = 15 / 2"
  by (simp add: get_cpu_load_def env_fixed_path_def env_no_probe_def)

theorem chain_value_in_range_witness:
  "get_cpu_temp_from_amd_specific (fs env_no_probe) = None \<and>
   get_cpu_temp_from_sysfs (hwmon_dirs env_no_probe) = None \<and>
   get_cpu_temp_from_lm_sensors (which_sensors env_no_probe) (sensors_run env_no_probe) = None \<and>
   get_cpu_temperature_linux env_no_probe =
     ((40, 15 / 2), [(WARNING, NoTemperatureUsingSafeValue)])"
  using chain_value_in_range[of env_no_probe]
  by (simp add: no_probe_amd no_probe_sysfs no_probe_lm no_probe_load py_round1_15_2)

lemma fixed_path_40: "get_cpu_temp_from_amd_specific (fs (env_fixed_path ''40000\<newline>'')) = Some 40"
  by (simp add: get_cpu_temp_from_amd_specific_def amd_temp_paths_def env_fixed_path_def
      env_no_probe_def amd_read_path_def text_eval)

text \<open>
  Claim C1 as stated fails on the source tag: the returned pair does not tell
  where the temperature comes from: a reading of
  40.0 from the first fixed path and the safe default give the same pair.
\<close>

theorem chain_returns_no_source_tag:
  "fst (get_cpu_temperature_linux (env_fixed_path ''40000\<newline>'')) =
     fst (get_cpu_temperature_linux env_no_probe) \<and>
   get_cpu_temp_from_amd_specific (fs (env_fixed_path ''40000\<newline>'')) = Some 40 \<and>
   get_cpu_temp_from_amd_specific (fs env_no_probe) = None \<and>
   get_cpu_temp_from_sysfs (hwmon_dirs env_no_probe) = None \<and>
   get_cpu_temp_from_lm_sensors (which_sensors env_no_probe) (sensors_run env_no_probe) = None"
  by (simp add: get_cpu_temperature_linux_def Let_def fixed_path_40 no_probe_amd no_probe_sysfs
      no_probe_lm no_probe_load fixed_path_load py_round1_40)

subsection \<open>The hwmon and the sensors probe at concrete inputs\<close>

text \<open>
  Claim C4 at a failing input: one hwmon directory without a \<^verbatim>\<open>name\<close> file whose
  only leaf holds the plausible reading 45.0. The reading is collected, then the
  \<^verbatim>\<open>print\<close> that mentions \<^verbatim>\<open>device_name\<close> raises \<^verbatim>\<open>NameError\<close>, the outermost
  handler catches it and the probe returns nothing, not the maximum 45.0.
\<close>

theorem sysfs_unnamed_device_lost:
  "sysfs_dirs None unnamed_device [] = Inl NameError \<and>
   get_cpu_temp_from_sysfs unnamed_device = None"
  by (simp add: get_cpu_temp_from_sysfs_def unnamed_device_def text_eval)

text \<open>With a named first directory the probe returns the maximum of the readings.\<close>

lemma sysfs_named_devices_max: "get_cpu_temp_from_sysfs named_devices = Some (228 / 5)"
  by (simp add: get_cpu_temp_from_sysfs_def named_devices_def text_eval)

lemma sysfs_returns_max:
  "get_cpu_temp_from_sysfs dirs = Some t \<Longrightarrow>
   \<exists>temps. sysfs_dirs None dirs [] = Inr temps \<and> temps \<noteq> [] \<and> t = Max (set temps)"
  by (auto simp: get_cpu_temp_from_sysfs_def foldl_max_Max
      split: if_splits sum.splits list.splits)

lemmas line_eval = cpu_line_def lower_def lower_char_def startswith_def degree_lower_c_def
  degree_upper_C_def match_here_def degree_sign_def

text \<open>
  Claim C6 at a failing input: the lines \<^verbatim>\<open>Core 0: +55.0 C\<close> and \<^verbatim>\<open>Core 1: +57.0 C\<close>
  (with the degree sign) as \<^verbatim>\<open>sensors\<close> prints them. The line test looks for the
  degree sign with a small \<^verbatim>\<open>c\<close> in the line as it is, so no line is selected
  and the probe returns nothing, not the mean 56.0.
\<close>

theorem lm_sensors_skips_celsius_lines:
  "lm_collect (split_on (CHR 0x0A) core_lines) = [] \<and>
   get_cpu_temp_from_lm_sensors (Completed 0 ''/usr/bin/sensors\<newline>'') (Completed 0 core_lines) = None"
  by (simp add: get_cpu_temp_from_lm_sensors_def core_lines_def line_eval)

text \<open>Lines that carry both forms of the marker are selected, and their mean is returned.\<close>

lemma lm_sensors_marked_lines:
  "get_cpu_temp_from_lm_sensors (Completed 0 ''/usr/bin/sensors\<newline>'') (Completed 0 marked_lines) = Some 56"
  by (simp add: get_cpu_temp_from_lm_sensors_def marked_lines_def line_eval text_eval)

subsection \<open>Parsing a fixed-path file\<close>

lemma is_digit_digit_char: "d < 10 \<Longrightarrow> is_digit (digit_char d)"
  by (simp add: is_digit_def digit_char_def)

lemma digit_val_digit_char: "d < 10 \<Longrightarrow> digit_val (digit_char d) = d"
  by (simp add: digit_val_def digit_char_def)

lemma str_nat_digits: "list_all is_digit (str_nat n)"
proof (induction n rule: str_nat.induct)
  case (1 n)
  show ?case
  proof (cases "n < 10")
    case True
    then show ?thesis by (subst str_nat.simps) (simp add: is_digit_digit_char)
  next
    case False
    then show ?thesis using 1 by (subst str_nat.simps) (simp add: is_digit_digit_char)
  qed
qed

lemma str_nat_nonempty: "str_nat n \<noteq> []"
  by (subst str_nat.simps) simp

lemma nat_of_digits_snoc: "nat_of_digits (s @ [c]) = 10 * nat_of_digits s + digit_val c"
  by (simp add: nat_of_digits_def)

lemma nat_of_digits_str_nat: "nat_of_digits (str_nat n) = n"
proof (induction n rule: str_nat.induct)
  case (1 n)
  show ?case
  proof (cases "n < 10")
    case True
    then show ?thesis
      by (subst str_nat.simps) (simp add: nat_of_digits_def digit_val_digit_char)
  next
    case False
    then have "nat_of_digits (str_nat (n div 10)) = n div 10" using 1 by simp
    then show ?thesis using False
      by (subst str_nat.simps) (simp add: nat_of_digits_snoc digit_val_digit_char)
  qed
qed








lemma digit_char_eval:
  "digit_char 0 = CHR ''0''" "digit_char 1 = CHR ''1''" "digit_char 2 = CHR ''2''"
  "digit_char 3 = CHR ''3''" "digit_char 4 = CHR ''4''" "digit_char 5 = CHR ''5''"
  "digit_char 6 = CHR ''6''" "digit_char 7 = CHR ''7''" "digit_char 8 = CHR ''8''"
  "digit_char 9 = CHR ''9''" "digit_char (Suc 0) = CHR ''1''"
  by code_simp+



subsection \<open>The load\<close>

lemma get_cpu_load_floor: "1 / 10 \<le> get_cpu_load env"
proof -
  have m: "\<And>x::rat. 1 / 10 \<le> max (1 / 10) x" by (rule max.cobounded1)
  show ?thesis
  proof (cases "cpu_percent_first env")
    case None
    then show ?thesis by (simp add: get_cpu_load_def)
  next
    case first: (Some a)
    show ?thesis
    proof (cases "cpu_percent_second env")
      case None
      then show ?thesis using first by (simp add: get_cpu_load_def)
    next
      case (Some b)
      then show ?thesis using first m by (simp only: get_cpu_load_def option.case)
    qed
  qed
qed

lemma proc_scan_first_line:
  assumes "startswith line ''cpu ''"
    and "those (map py_int (tl (split_ws line))) = Some nums"
    and "4 < length (split_ws line)"
    and "py_int (split_ws line ! 4) = Some idle_time"
    and "0 < sum_list nums"
  shows "proc_scan (line # rest) = Some (100 - (of_int idle_time / of_int (sum_list nums)) * 100)"
  using assms by (simp add: Let_def)

text \<open>
  Claim C5. \<^verbatim>\<open>get_cpu_load\<close> returns at least 0.1 on every path, so never 0.0, and
  so does the load that the sampling returns after rounding. When the measurement
  of \<^verbatim>\<open>psutil\<close> is 0 and the first line of \<^verbatim>\<open>/proc/stat\<close> is the \<^verbatim>\<open>cpu\<close> line with
  idle time 900 out of a total of 1000, the result is \<open>100 - (900 / 1000) * 100 = 10\<close>.
\<close>

theorem load_never_zero:
  "1 / 10 \<le> get_cpu_load env \<and> get_cpu_load env \<noteq> 0 \<and>
   1 / 10 \<le> snd (fst (get_cpu_temperature_linux env)) \<and>
   (cpu_percent_first env = Some first \<and> cpu_percent_second env = Some 0 \<and>
    proc_stat env = Content body \<and> readlines body = line # rest \<and>
    startswith line ''cpu '' \<and> those (map py_int (tl (split_ws line))) = Some nums \<and>
    4 < length (split_ws line) \<and> py_int (split_ws line ! 4) = Some 900 \<and>
    sum_list nums = 1000 \<longrightarrow>
      get_cpu_load_from_proc (proc_stat env) = 10 \<and> get_cpu_load env = 10)"
proof (intro conjI impI)
  show f: "1 / 10 \<le> get_cpu_load env" by (rule get_cpu_load_floor)
  then show "get_cpu_load env \<noteq> 0" by auto
  have "snd (fst (get_cpu_temperature_linux env)) = py_round1 (get_cpu_load env)"
    by (simp add: get_cpu_temperature_linux_def Let_def split: option.splits)
  then show "1 / 10 \<le> snd (fst (get_cpu_temperature_linux env))"
    using py_round1_floor[OF f] by simp
next
  assume a: "cpu_percent_first env = Some first \<and> cpu_percent_second env = Some 0 \<and>
    proc_stat env = Content body \<and> readlines body = line # rest \<and>
    startswith line ''cpu '' \<and> those (map py_int (tl (split_ws line))) = Some nums \<and>
    4 < length (split_ws line) \<and> py_int (split_ws line ! 4) = Some 900 \<and>
    sum_list nums = 1000"
  then have "proc_scan (line # rest) = Some (100 - (of_int 900 / of_int (sum_list nums)) * 100)"
    by (intro proc_scan_first_line) simp_all
  then have p: "proc_scan (readlines body) = Some 10" using a by simp
  then show g: "get_cpu_load_from_proc (proc_stat env) = 10"
    using a by (simp add: get_cpu_load_from_proc_def)
  show "get_cpu_load env = 10" using a g by (simp add: get_cpu_load_def)
qed

theorem load_never_zero_witness:
  "cpu_percent_first env_idle_900 = Some 0 \<and> cpu_percent_second env_idle_900 = Some 0 \<and>
   proc_stat env_idle_900 =
     Content ''cpu  60 0 40 900 0 0 0 0 0 0\<newline>cpu0 30 0 20 450 0 0 0 0 0 0\<newline>'' \<and>
   readlines ''cpu  60 0 40 900 0 0 0 0 0 0\<newline>cpu0 30 0 20 450 0 0 0 0 0 0\<newline>'' =
     [''cpu  60 0 40 900 0 0 0 0 0 0\<newline>'', ''cpu0 30 0 20 450 0 0 0 0 0 0\<newline>''] \<and>
   those (map py_int (tl (split_ws ''cpu  60 0 40 900 0 0 0 0 0 0\<newline>''))) =
     Some [60, 0, 40, 900, 0, 0, 0, 0, 0, 0] \<and>
   py_int (split_ws ''cpu  60 0 40 900 0 0 0 0 0 0\<newline>'' ! 4) = Some 900 \<and>
   get_cpu_load_from_proc (proc_stat env_idle_900) = 10 \<and>
   get_cpu_load env_idle_900 = 10"
proof -
  have e: "cpu_percent_first env_idle_900 = Some 0" "cpu_percent_second env_idle_900 = Some 0"
    "proc_stat env_idle_900 =
       Content ''cpu  60 0 40 900 0 0 0 0 0 0\<newline>cpu0 30 0 20 450 0 0 0 0 0 0\<newline>''"
    by (simp_all add: env_idle_900_def env_no_probe_def)
  have r: "readlines ''cpu  60 0 40 900 0 0 0 0 0 0\<newline>cpu0 30 0 20 450 0 0 0 0 0 0\<newline>'' =
     [''cpu  60 0 40 900 0 0 0 0 0 0\<newline>'', ''cpu0 30 0 20 450 0 0 0 0 0 0\<newline>'']"
    by (simp add: readlines_def)
  have w: "split_ws ''cpu  60 0 40 900 0 0 0 0 0 0\<newline>'' =
     [''cpu'', ''60'', ''0'', ''40'', ''900'', ''0'', ''0'', ''0'', ''0'', ''0'', ''0'']"
    by (simp add: split_ws_def is_space_def)
  have t: "those (map py_int (tl (split_ws ''cpu  60 0 40 900 0 0 0 0 0 0\<newline>''))) =
     Some [60, 0, 40, 900, 0, 0, 0, 0, 0, 0]"
    by (simp add: w py_int_def int_unsigned_def text_eval)
  have i: "py_int (split_ws ''cpu  60 0 40 900 0 0 0 0 0 0\<newline>'' ! 4) = Some 900"
    by (simp add: w py_int_def int_unsigned_def text_eval)
  have s: "startswith ''cpu  60 0 40 900 0 0 0 0 0 0\<newline>'' ''cpu ''"
    by (simp add: startswith_def)
  have n: "4 < length (split_ws ''cpu  60 0 40 900 0 0 0 0 0 0\<newline>'')"
    by (simp add: w)
  have u: "sum_list [60, 0, 40, 900, 0, 0, 0, 0, 0, 0 :: int] = 1000" by simp
  show ?thesis
    using e r t i s n u
      load_never_zero[of env_idle_900 0
        "''cpu  60 0 40 900 0 0 0 0 0 0\<newline>cpu0 30 0 20 450 0 0 0 0 0 0\<newline>''"
        "''cpu  60 0 40 900 0 0 0 0 0 0\<newline>''" "[''cpu0 30 0 20 450 0 0 0 0 0 0\<newline>'']"
        "[60, 0, 40, 900, 0, 0, 0, 0, 0, 0]"]
    by simp
qed

subsection \<open>The wire line\<close>

lemma of_char_digit_char: "d < 10 \<Longrightarrow> (of_char (digit_char d) :: nat) = 48 + d"
  by (simp add: digit_char_def)

lemma digit_char_not_newline: "d < 10 \<Longrightarrow> digit_char d \<noteq> CHR 0x0A"
proof
  assume d: "d < 10" and "digit_char d = CHR 0x0A"
  then have "(of_char (digit_char d) :: nat) = of_char (CHR 0x0A)" by simp
  with d show False by (simp add: of_char_digit_char)
qed

lemma endswith_snoc: "endswith (xs @ [c]) [d] = (c = d)"
  by (simp add: endswith_def)

lemma format_1f_no_newline: "\<not> endswith (pre @ format_1f x) ''\<newline>''"
proof -
  define n where "n = nat (round_half_even (fl \<bar>x\<bar> * 10))"
  define ys where "ys = pre @ (if x < 0 then ''-'' else '''') @ str_nat (n div 10) @ ''.''"
  have "pre @ format_1f x = ys @ [digit_char (n mod 10)]"
    by (simp add: format_1f_def Let_def n_def ys_def)
  moreover have "n mod 10 < 10" by simp
  ultimately show ?thesis
    using endswith_snoc[of ys "digit_char (n mod 10)" "CHR 0x0A"] digit_char_not_newline
    by simp
qed

text \<open>The text of a number with one decimal, read back.\<close>

lemma float_unsigned_one_decimal:
  assumes "b < 10"
  shows "float_unsigned (str_nat a @ ''.'' @ [digit_char b]) = Some (of_nat a + of_nat b / 10)"
proof -
  let ?s = "str_nat a @ ''.'' @ [digit_char b]"
  have d: "\<And>c. c \<in> set (str_nat a) \<Longrightarrow> is_digit c"
    using str_nat_digits[of a] by (simp add: list_all_iff)
  have nd: "\<not> is_digit CHR ''.''" by (simp add: is_digit_def)
  have tw: "takeWhile is_digit ?s = str_nat a"
    using d nd by (simp add: takeWhile_append2)
  have dw: "dropWhile is_digit ?s = CHR ''.'' # [digit_char b]"
    using d nd by (simp add: dropWhile_append2)
  have v: "nat_of_digits [digit_char b] = b"
    using assms by (simp add: nat_of_digits_def digit_val_digit_char)
  have "float_unsigned ?s =
      Some (of_nat (nat_of_digits (str_nat a)) + of_nat (nat_of_digits [digit_char b]) / 10 ^ 1)"
    unfolding float_unsigned_def Let_def tw dw
    using assms by (simp add: is_digit_digit_char str_nat_nonempty)
  then show ?thesis by (simp add: nat_of_digits_str_nat v)
qed

lemma py_float_one_decimal:
  assumes "b < 10"
  shows "py_float (str_nat a @ ''.'' @ [digit_char b]) = Some (of_nat a + of_nat b / 10)"
proof -
  obtain c cs where s: "str_nat a = c # cs"
    using str_nat_nonempty by (cases "str_nat a") auto
  have "is_digit c" using str_nat_digits[of a] s by simp
  then have "c \<noteq> CHR ''-''" "c \<noteq> CHR ''+''" by (auto simp: is_digit_def)
  then have "py_float (str_nat a @ ''.'' @ [digit_char b]) =
      float_unsigned (str_nat a @ ''.'' @ [digit_char b])"
    using s by (simp add: py_float_def)
  then show ?thesis using float_unsigned_one_decimal[OF assms] by simp
qed

lemma format_1f_nonneg:
  "0 \<le> x \<Longrightarrow>
   format_1f x =
     str_nat (nat (round_half_even (fl x * 10)) div 10) @ ''.'' @
       [digit_char (nat (round_half_even (fl x * 10)) mod 10)]"
  by (simp add: format_1f_def Let_def)

lemma round_fl_nonneg: "0 \<le> x \<Longrightarrow> 0 \<le> round_half_even (fl x * 10)"
proof -
  assume "0 \<le> x"
  then have "0 \<le> fl x * 10" using fl_nonneg by simp
  then have "0 \<le> \<lfloor>fl x * 10\<rfloor>" by simp
  then show ?thesis using round_half_even_bounds[of "fl x * 10"] by linarith
qed

lemma format_1f_shape:
  "0 \<le> x \<longrightarrow> (\<exists>w d. format_1f x = w @ ''.'' @ [d] \<and> isdigit w \<and> is_digit d)"
proof
  assume x: "0 \<le> x"
  let ?n = "nat (round_half_even (fl x * 10))"
  have "isdigit (str_nat (?n div 10))"
    by (simp add: isdigit_def str_nat_digits str_nat_nonempty)
  moreover have "is_digit (digit_char (?n mod 10))" by (simp add: is_digit_digit_char)
  ultimately show "\<exists>w d. format_1f x = w @ ''.'' @ [d] \<and> isdigit w \<and> is_digit d"
    using format_1f_nonneg[OF x] by blast
qed

lemma format_1f_parse: "0 \<le> x \<longrightarrow> py_float (format_1f x) = Some (py_round1 x)"
proof
  assume x: "0 \<le> x"
  define k where "k = round_half_even (fl x * 10)"
  define n where "n = nat k"
  have k: "0 \<le> k" unfolding k_def using x by (rule round_fl_nonneg)
  have "n = 10 * (n div 10) + n mod 10" by simp
  then have "(of_nat n :: rat) = of_nat (10 * (n div 10) + n mod 10)" by simp
  then have "(of_nat n :: rat) = 10 * of_nat (n div 10) + of_nat (n mod 10)"
    by (simp only: of_nat_add of_nat_mult of_nat_numeral)
  then have e: "(of_nat (n div 10) :: rat) + of_nat (n mod 10) / 10 = of_nat n / 10" by simp
  have "(of_nat n :: rat) = of_int k" using k by (simp add: n_def)
  then have v: "(of_nat (n div 10) :: rat) + of_nat (n mod 10) / 10 = py_round1 x"
    using e by (simp add: py_round1_def k_def)
  have "py_float (format_1f x) =
      Some (of_nat (n div 10) + of_nat (n mod 10) / 10)"
    using format_1f_nonneg[OF x] py_float_one_decimal[of "n mod 10" "n div 10"]
    by (simp add: n_def k_def)
  then show "py_float (format_1f x) = Some (py_round1 x)" using v by simp
qed

text \<open>What the sampling returns are tenths, and their text reads back as they are.\<close>

lemma chain_temperature_form:
  "\<exists>t. 0 \<le> t \<and> t \<le> 120 \<and> fst (fst (get_cpu_temperature_linux env)) = py_round1 t"
proof -
  let ?a = "get_cpu_temp_from_amd_specific (fs env)"
  let ?s = "get_cpu_temp_from_sysfs (hwmon_dirs env)"
  let ?l = "get_cpu_temp_from_lm_sensors (which_sensors env) (sensors_run env)"
  have ra: "\<And>t. ?a = Some t \<Longrightarrow> 0 \<le> t \<and> t \<le> 120"
    unfolding get_cpu_temp_from_amd_specific_def by (rule amd_loop_range)
  have rs: "\<And>t. ?s = Some t \<Longrightarrow> 0 \<le> t \<and> t \<le> 120" by (rule sysfs_range)
  have rl: "\<And>t. ?l = Some t \<Longrightarrow> 0 \<le> t \<and> t \<le> 120" by (rule lm_sensors_range)
  show ?thesis
  proof (cases ?a)
    case (Some t)
    then have "fst (fst (get_cpu_temperature_linux env)) = py_round1 t"
      by (simp add: get_cpu_temperature_linux_def Let_def)
    then show ?thesis using ra[OF Some] by blast
  next
    case None
    note a = this
    show ?thesis
    proof (cases ?s)
      case (Some t)
      then have "fst (fst (get_cpu_temperature_linux env)) = py_round1 t"
        using a by (simp add: get_cpu_temperature_linux_def Let_def)
      then show ?thesis using rs[OF Some] by blast
    next
      case None
      note s = this
      show ?thesis
      proof (cases ?l)
        case (Some t)
        then have "fst (fst (get_cpu_temperature_linux env)) = py_round1 t"
          using a s by (simp add: get_cpu_temperature_linux_def Let_def)
        then show ?thesis using rl[OF Some] by blast
      next
        case None
        then have "fst (fst (get_cpu_temperature_linux env)) = py_round1 40"
          using a s by (simp add: get_cpu_temperature_linux_def Let_def)
        moreover have "(0::rat) \<le> 40 \<and> (40::rat) \<le> 120" by simp
        ultimately show ?thesis by blast
      qed
    qed
  qed
qed

lemma chain_load_form:
  "snd (fst (get_cpu_temperature_linux env)) = py_round1 (get_cpu_load env)"
  by (simp add: get_cpu_temperature_linux_def Let_def split: option.splits)

lemma reading_text_reads_back:
  "fst (get_cpu_temperature_linux env) = (temp, load) \<longrightarrow>
     py_float (format_1f temp) = Some temp \<and>
     (load \<le> 100 \<longrightarrow> py_float (format_1f load) = Some load)"
proof (intro impI conjI)
  assume r: "fst (get_cpu_temperature_linux env) = (temp, load)"
  obtain t where t: "0 \<le> t" "t \<le> 120" "temp = py_round1 t"
    using chain_temperature_form[of env] r by auto
  have b: "0 \<le> py_round1 t" "py_round1 t \<le> 120" using py_round1_range[OF t(1,2)] by simp_all
  then have "py_round1 (py_round1 t) = py_round1 t" by (intro py_round1_idem) simp_all
  then show "py_float (format_1f temp) = Some temp"
    using format_1f_parse[of temp] b t(3) by simp
next
  assume r: "fst (get_cpu_temperature_linux env) = (temp, load)" and h: "load \<le> 100"
  have l: "load = py_round1 (get_cpu_load env)" using chain_load_form[of env] r by simp
  have "1 / 10 \<le> py_round1 (get_cpu_load env)"
    using py_round1_floor[OF get_cpu_load_floor] .
  then have b: "0 \<le> py_round1 (get_cpu_load env)" by simp
  have "py_round1 (py_round1 (get_cpu_load env)) = py_round1 (get_cpu_load env)"
    using b h l by (intro py_round1_idem) simp_all
  then show "py_float (format_1f load) = Some load"
    using format_1f_parse[of load] b l by simp
qed

lemma format_1f_tenth:
  "0 \<le> k \<Longrightarrow> k < 2 ^ 50 \<Longrightarrow>
   format_1f (of_int k / 10) = str_nat (nat k div 10) @ ''.'' @ [digit_char (nat k mod 10)]"
  by (simp add: format_1f_nonneg fl_tenth)

lemma format_1f_53_2: "format_1f (266 / 5) = ''53.2''"
  using format_1f_tenth[of 532] by (simp add: str_nat.simps digit_char_eval)

lemma format_1f_7_5: "format_1f (15 / 2) = ''7.5''"
  using format_1f_tenth[of 75] by (simp add: str_nat.simps digit_char_eval)

lemma sample_reading:
  "get_cpu_temperature_linux (env_fixed_path ''53200\<newline>'') = ((266 / 5, 15 / 2), [])"
proof -
  have a: "get_cpu_temp_from_amd_specific (fs (env_fixed_path ''53200\<newline>'')) = Some (266 / 5)"
    by (simp add: get_cpu_temp_from_amd_specific_def amd_temp_paths_def env_fixed_path_def
        env_no_probe_def amd_read_path_def text_eval)
  show ?thesis
    by (simp add: get_cpu_temperature_linux_def Let_def a py_round1_266_5 fixed_path_load
        py_round1_15_2)
qed

lemma tick_step_wire_line:
  "event t = Sampled \<and> serial_conn m = Some conn \<and> is_open conn \<and> write_ok t \<and>
    fst (get_cpu_temperature_linux (sensors t)) = (temp, load) \<longrightarrow>
      serial_conn (fst (snd (tick_step m sc t))) =
        Some (conn\<lparr>tx := tx conn @
          [(''TEMP:'' @ format_1f temp @ ''|LOAD:'' @ format_1f load @ ''\<newline>'', True)]\<rparr>)"
proof
  assume a: "event t = Sampled \<and> serial_conn m = Some conn \<and> is_open conn \<and> write_ok t \<and>
    fst (get_cpu_temperature_linux (sensors t)) = (temp, load)"
  have nn: "\<not> endswith (''TEMP:'' @ format_1f temp @ ''|LOAD:'' @ format_1f load) ''\<newline>''"
    using format_1f_no_newline[of "''TEMP:'' @ format_1f temp @ ''|LOAD:''" load] by simp
  obtain evs where g: "get_cpu_temperature_linux (sensors t) = ((temp, load), evs)"
    using a by (cases "get_cpu_temperature_linux (sensors t)") auto
  show "serial_conn (fst (snd (tick_step m sc t))) =
        Some (conn\<lparr>tx := tx conn @
          [(''TEMP:'' @ format_1f temp @ ''|LOAD:'' @ format_1f load @ ''\<newline>'', True)]\<rparr>)"
    using a g nn
    by (simp add: tick_step_def Let_def send_data_def read_response_def split: option.splits)
qed

lemma send_data_newline:
  "serial_conn m = Some conn \<and> is_open conn \<longrightarrow>
      serial_conn (snd (send_data m s w)) =
        Some (conn\<lparr>tx := tx conn @ [(if endswith s ''\<newline>'' then s else s @ ''\<newline>'', w)]\<rparr>)"
  using send_data_tx by blast

lemma wire_line_example:
  "''TEMP:'' @ format_1f (266 / 5) @ ''|LOAD:'' @ format_1f (15 / 2) @ ''\<newline>'' =
     ''TEMP:53.2|LOAD:7.5\<newline>''"
  by (simp add: format_1f_53_2 format_1f_7_5)

text \<open>
  Claim C8. In an iteration whose send succeeds, the bytes given to \<^verbatim>\<open>write\<close> are
  \<^verbatim>\<open>TEMP:\<close>, the text of the temperature, \<^verbatim>\<open>|LOAD:\<close>, the text of the load and one
  line feed; \<^verbatim>\<open>send_data\<close> appends the line feed only to a string that does not
  end in one. The text of a number that is not negative is a run of digits, a dot
  and one digit, and it reads back as the number rounded to one decimal. For every
  reading the sampling returns, the text of the temperature reads back as the
  temperature itself, and so does the text of a load of at most 100 percent. The
  reading (53.2, 7.5) is sent as \<^verbatim>\<open>TEMP:53.2|LOAD:7.5\<close> followed by a line feed.
\<close>

theorem wire_line_format:
  "(event t = Sampled \<and> serial_conn m = Some conn \<and> is_open conn \<and> write_ok t \<and>
    fst (get_cpu_temperature_linux (sensors t)) = (temp, load) \<longrightarrow>
      serial_conn (fst (snd (tick_step m sc t))) =
        Some (conn\<lparr>tx := tx conn @
          [(''TEMP:'' @ format_1f temp @ ''|LOAD:'' @ format_1f load @ ''\<newline>'', True)]\<rparr>)) \<and>
   (serial_conn m = Some conn \<and> is_open conn \<longrightarrow>
      serial_conn (snd (send_data m s w)) =
        Some (conn\<lparr>tx := tx conn @ [(if endswith s ''\<newline>'' then s else s @ ''\<newline>'', w)]\<rparr>)) \<and>
   (0 \<le> x \<longrightarrow> (\<exists>ds d. format_1f x = ds @ ''.'' @ [d] \<and> isdigit ds \<and> is_digit d)) \<and>
   (0 \<le> x \<longrightarrow> py_float (format_1f x) = Some (py_round1 x)) \<and>
   (fst (get_cpu_temperature_linux env) = (temp', load') \<longrightarrow>
      py_float (format_1f temp') = Some temp' \<and>
      (load' \<le> 100 \<longrightarrow> py_float (format_1f load') = Some load')) \<and>
   ''TEMP:'' @ format_1f (266 / 5) @ ''|LOAD:'' @ format_1f (15 / 2) @ ''\<newline>'' =
     ''TEMP:53.2|LOAD:7.5\<newline>''"
  by (intro conjI)
    (rule tick_step_wire_line, rule send_data_newline, rule format_1f_shape,
      rule format_1f_parse, rule reading_text_reads_back, rule wire_line_example)

theorem wire_line_format_witness:
  "event (sample_tick True) = Sampled \<and>
   serial_conn open_monitor = Some \<lparr>is_open = True, tx = [], close_calls = 0\<rparr> \<and>
   write_ok (sample_tick True) \<and>
   fst (get_cpu_temperature_linux (sensors (sample_tick True))) = (266 / 5, 15 / 2) \<and>
   serial_conn (fst (snd (tick_step open_monitor 0 (sample_tick True)))) =
     Some \<lparr>is_open = True, tx = [(''TEMP:53.2|LOAD:7.5\<newline>'', True)], close_calls = 0\<rparr> \<and>
   serial_conn (snd (send_data open_monitor ''HELLO\<newline>'' True)) =
     Some \<lparr>is_open = True, tx = [(''HELLO\<newline>'', True)], close_calls = 0\<rparr> \<and>
   format_1f (266 / 5) = ''53.2'' \<and> isdigit ''53'' \<and> is_digit CHR ''2'' \<and>
   py_float (format_1f (266 / 5)) = Some (266 / 5) \<and>
   py_float (format_1f (15 / 2)) = Some (15 / 2)"
proof -
  have r: "fst (get_cpu_temperature_linux (sensors (sample_tick True))) = (266 / 5, 15 / 2)"
    by (simp add: sample_tick_def sample_reading)
  have e: "endswith ''HELLO\<newline>'' ''\<newline>''" by (simp add: endswith_def)
  have o: "serial_conn open_monitor = Some \<lparr>is_open = True, tx = [], close_calls = 0\<rparr>"
    by (simp add: open_monitor_def init_monitor_def)
  have t: "event (sample_tick True) = Sampled" "write_ok (sample_tick True)"
    by (simp_all add: sample_tick_def)
  have d: "isdigit ''53''" "is_digit CHR ''2''" by (simp_all add: isdigit_def is_digit_def)
  have l: "(15 / 2 :: rat) \<le> 100" "(0::rat) \<le> 266 / 5" by simp_all
  note w = wire_line_format[of "sample_tick True" open_monitor
        "\<lparr>is_open = True, tx = [], close_calls = 0\<rparr>" "266 / 5" "15 / 2" 0 "''HELLO\<newline>''" True
        "266 / 5" "sensors (sample_tick True)" "266 / 5" "15 / 2"]
  have a: "serial_conn (fst (snd (tick_step open_monitor 0 (sample_tick True)))) =
     Some \<lparr>is_open = True, tx = [(''TEMP:53.2|LOAD:7.5\<newline>'', True)], close_calls = 0\<rparr>"
    using w r o t by (simp add: format_1f_53_2 format_1f_7_5)
  have b: "serial_conn (snd (send_data open_monitor ''HELLO\<newline>'' True)) =
     Some \<lparr>is_open = True, tx = [(''HELLO\<newline>'', True)], close_calls = 0\<rparr>"
    using w o e by simp
  have c: "py_float (format_1f (266 / 5)) = Some (266 / 5)"
    "py_float (format_1f (15 / 2)) = Some (15 / 2)"
    using w r l by (simp_all add: py_round1_266_5 py_round1_15_2)
  show ?thesis using r o t a b c d by (simp add: format_1f_53_2)
qed

end
